theory Spec2Isabelle
  imports Complex_Main
begin

section \<open>JavaScript values used by the review browser\<close>

text \<open>
  The program is \<^verbatim>\<open>src/static/app.js\<close> (first variant, the one with journal and subfield
  facets). Strings are modelled as \<^typ>\<open>string\<close>; the platform functions \<^verbatim>\<open>trim\<close>,
  \<^verbatim>\<open>toLowerCase\<close>, \<^verbatim>\<open>includes\<close>, \<^verbatim>\<open>split\<close>, \<^verbatim>\<open>join\<close>, \<^verbatim>\<open>parseInt\<close> and the
  number-to-string conversion are written out for ASCII text. Numbers that the program
  handles are integers or \<^verbatim>\<open>NaN\<close>; \<^verbatim>\<open>localeCompare\<close> is a parameter \<open>lc\<close> of
  every function that sorts.

  What is taken from the platform and not modelled further: a form control is a variable
  holding its value (a \<^verbatim>\<open>select\<close> or a number input may refuse a value it is given);
  an entry has its own properties only, not those it inherits from \<^verbatim>\<open>Object.prototype\<close>;
  the page size is a positive integer.
\<close>

definition is_space :: "char \<Rightarrow> bool" where
  "is_space c \<longleftrightarrow> c \<in> set [CHR '' '', CHR 0x09, CHR 0x0A, CHR 0x0B, CHR 0x0C, CHR 0x0D]"

definition trim :: "string \<Rightarrow> string" where
  "trim s = rev (dropWhile is_space (rev (dropWhile is_space s)))"

definition lower_char :: "char \<Rightarrow> char" where
  "lower_char c =
     (case map_of (zip ''ABCDEFGHIJKLMNOPQRSTUVWXYZ'' ''abcdefghijklmnopqrstuvwxyz'') c of
        None \<Rightarrow> c | Some d \<Rightarrow> d)"

definition toLowerCase :: "string \<Rightarrow> string" where
  "toLowerCase s = map lower_char s"

fun startsWith :: "string \<Rightarrow> string \<Rightarrow> bool" where
  "startsWith s [] = True"
| "startsWith [] (p # ps) = False"
| "startsWith (c # cs) (p # ps) = (c = p \<and> startsWith cs ps)"

text \<open>\<^verbatim>\<open>s.includes(sub)\<close>: \<open>sub\<close> occurs somewhere in \<open>s\<close>.\<close>

fun includes_str :: "string \<Rightarrow> string \<Rightarrow> bool" where
  "includes_str [] sub = (sub = [])"
| "includes_str (c # cs) sub = (startsWith (c # cs) sub \<or> includes_str cs sub)"

text \<open>\<^verbatim>\<open>s.split(sep)\<close> for a one-character separator: never the empty array.\<close>

fun js_split :: "char \<Rightarrow> string \<Rightarrow> string list" where
  "js_split sep [] = [[]]"
| "js_split sep (c # cs) =
     (if c = sep then [] # js_split sep cs
      else (case js_split sep cs of [] \<Rightarrow> [[c]] | p # ps \<Rightarrow> (c # p) # ps))"

fun join :: "char \<Rightarrow> string list \<Rightarrow> string" where
  "join sep [] = []"
| "join sep [x] = x"
| "join sep (x # y # ys) = x @ sep # join sep (y # ys)"

text \<open>\<^verbatim>\<open>xs[i]\<close> on an array: \<^verbatim>\<open>undefined\<close> out of range.\<close>

definition at_index :: "'a list \<Rightarrow> nat \<Rightarrow> 'a option" where
  "at_index xs i = (if i < length xs then Some (xs ! i) else None)"

datatype js_number = NaN | Num int

definition is_digit :: "char \<Rightarrow> bool" where
  "is_digit c \<longleftrightarrow> c \<in> set ''0123456789''"

definition digit_val :: "char \<Rightarrow> int" where
  "digit_val c =
     (case map_of (zip ''0123456789'' [0, 1, 2, 3, 4, 5, 6, 7, 8, 9]) c of
        None \<Rightarrow> 0 | Some d \<Rightarrow> d)"

definition digits_value :: "string \<Rightarrow> int" where
  "digits_value ds = foldl (\<lambda>a c. 10 * a + digit_val c) 0 ds"

text \<open>
  \<^verbatim>\<open>parseInt(s, 10)\<close>: leading white space is skipped, one sign is read, then the longest
  run of decimal digits; no digit gives \<^verbatim>\<open>NaN\<close>, and whatever follows the digits is
  ignored.
\<close>

definition parseInt :: "string \<Rightarrow> js_number" where
  "parseInt s =
     (let t = dropWhile is_space s;
          neg = (t \<noteq> [] \<and> hd t = CHR ''-'');
          u = (if t \<noteq> [] \<and> (hd t = CHR ''-'' \<or> hd t = CHR ''+'') then tl t else t);
          ds = takeWhile is_digit u
      in if ds = [] then NaN
         else Num (if neg then - digits_value ds else digits_value ds))"

definition digit_char :: "nat \<Rightarrow> char" where
  "digit_char d = ''0123456789'' ! d"

fun show_nat :: "nat \<Rightarrow> string" where
  "show_nat n =
     (if n < 10 then [digit_char n] else show_nat (n div 10) @ [digit_char (n mod 10)])"

declare show_nat.simps [simp del]

text \<open>The string form of an integer, as \<^verbatim>\<open>URLSearchParams.set\<close> stores a number.\<close>

definition show_int :: "int \<Rightarrow> string" where
  "show_int i = (if i < 0 then CHR ''-'' # show_nat (nat (- i)) else show_nat (nat i))"

text \<open>A JavaScript \<^verbatim>\<open>Set\<close> of strings in insertion order.\<close>

fun new_Set :: "string list \<Rightarrow> string list" where
  "new_Set [] = []"
| "new_Set (x # xs) = x # filter (\<lambda>y. y \<noteq> x) (new_Set xs)"

definition set_add :: "string \<Rightarrow> string list \<Rightarrow> string list" where
  "set_add v s = (if v \<in> set s then s else s @ [v])"

definition set_delete :: "string \<Rightarrow> string list \<Rightarrow> string list" where
  "set_delete v s = filter (\<lambda>y. y \<noteq> v) s"

text \<open>\<^verbatim>\<open>s.has(x)\<close> where \<open>x\<close> may be \<^verbatim>\<open>undefined\<close>: the sets hold strings only.\<close>

definition set_has :: "string list \<Rightarrow> string option \<Rightarrow> bool" where
  "set_has s x = (case x of None \<Rightarrow> False | Some v \<Rightarrow> v \<in> set s)"

text \<open>\<^verbatim>\<open>x || ""\<close> on an optional string.\<close>

definition or_empty :: "string option \<Rightarrow> string" where
  "or_empty x = (case x of None \<Rightarrow> [] | Some v \<Rightarrow> v)"

text \<open>A stable sort by a comparator, as \<^verbatim>\<open>Array.prototype.sort\<close> is.\<close>

fun insert_by :: "('a \<Rightarrow> 'a \<Rightarrow> int) \<Rightarrow> 'a \<Rightarrow> 'a list \<Rightarrow> 'a list" where
  "insert_by c x [] = [x]"
| "insert_by c x (y # ys) = (if c x y \<le> 0 then x # y # ys else y # insert_by c x ys)"

definition sort_by :: "('a \<Rightarrow> 'a \<Rightarrow> int) \<Rightarrow> 'a list \<Rightarrow> 'a list" where
  "sort_by c xs = foldr (insert_by c) xs []"

section \<open>Data model\<close>

text \<open>
  A review entry as parsed from the embedded JSON. Fields the code reads without a guard
  are strings; fields it guards with \<^verbatim>\<open>||\<close> or tests for presence are optional
  (\<open>None\<close> is an absent key).
\<close>

record entry =
  title :: string
  author :: string
  reviewer :: string
  journal :: string
  date :: "string option"
  access :: string
  summary :: "string option"
  link :: "string option"
  type :: "string option"
  subfield :: "string option"
  subfield2 :: "string option"
  symposium_group :: "string option"

definition SUBFIELD_NAMES :: "(string \<times> string) list" where
  "SUBFIELD_NAMES =
     [(''ethics'', ''Ethics & Moral Philosophy''),
      (''applied-ethics'', ''Applied & Professional Ethics''),
      (''political'', ''Political & Social Philosophy''),
      (''legal'', ''Philosophy of Law''),
      (''epistemology'', ''Epistemology & Philosophy of Mind''),
      (''metaphysics'', ''Metaphysics & Logic''),
      (''science'', ''Philosophy of Science''),
      (''aesthetics'', ''Aesthetics & Philosophy of Art''),
      (''religion'', ''Philosophy of Religion & Theology''),
      (''history'', ''History of Philosophy''),
      (''ancient'', ''Ancient & Medieval Philosophy''),
      (''modern'', ''Early Modern Philosophy''),
      (''continental'', ''Continental & Phenomenological''),
      (''feminist'', ''Feminist Philosophy''),
      (''non-western'', ''Non-Western & Comparative'')]"

text \<open>An item of the pagination control: a page button or an ellipsis.\<close>

datatype page_item = Page int | Ellipsis

text \<open>
  The fragment of the URL as \<^verbatim>\<open>URLSearchParams\<close> holds it: the list of key/value pairs.
  Percent-encoding and decoding are the platform's and inverse to each other, so the
  fragment is identified with this list; the empty list is the empty fragment.
\<close>

type_synonym params = "(string \<times> string) list"

definition params_has :: "params \<Rightarrow> string \<Rightarrow> bool" where
  "params_has ps k \<longleftrightarrow> k \<in> fst ` set ps"

definition params_get :: "params \<Rightarrow> string \<Rightarrow> string" where
  "params_get ps k = (case map_of ps k of None \<Rightarrow> [] | Some v \<Rightarrow> v)"

definition params_set :: "string \<Rightarrow> string \<Rightarrow> params \<Rightarrow> params" where
  "params_set k v ps =
     (if k \<in> fst ` set ps
      then (takeWhile (\<lambda>p. fst p \<noteq> k) ps) @ (k, v) #
           filter (\<lambda>p. fst p \<noteq> k) (tl (dropWhile (\<lambda>p. fst p \<noteq> k) ps))
      else ps @ [(k, v)])"

text \<open>
  The whole mutable state of the page: the module's variables, the fields of
  \<^verbatim>\<open>state\<close>, the values of the form controls in \<^verbatim>\<open>els\<close>, the rendered pagination
  control, and the fragment of the location.
\<close>

record app =
  allReviews :: "entry list"
  filtered :: "entry list"
  allJournals :: "string list"
  selectedJournals :: "string list"
  allSubfields :: "string list"
  selectedSubfields :: "string list"
  page :: int
  perPage :: int
  sortKey :: string
  sortDir :: string
  expandedIdx :: "int option"
  globalSearch :: string
  titleFilter :: string
  authorFilter :: string
  reviewerFilter :: string
  yearFrom :: string
  yearTo :: string
  accessFilter :: string
  typeFilter :: string
  pagination :: "page_item list"
  location_hash :: params

section \<open>Filtering\<close>

text \<open>\<^verbatim>\<open>SUBFIELD_NAMES[r.subfield] || ""\<close>.\<close>

definition subfield_name :: "string option \<Rightarrow> string" where
  "subfield_name x = (case x of None \<Rightarrow> [] | Some k \<Rightarrow> or_empty (map_of SUBFIELD_NAMES k))"

text \<open>An optional string inside a string concatenation.\<close>

definition str_of :: "string option \<Rightarrow> string" where
  "str_of x = (case x of None \<Rightarrow> ''undefined'' | Some v \<Rightarrow> v)"

definition blob :: "entry \<Rightarrow> string" where
  "blob r =
     toLowerCase (title r @ '' '' @ author r @ '' '' @ reviewer r @ '' '' @ journal r @ '' '' @
                  str_of (date r) @ '' '' @ toLowerCase (subfield_name (subfield r)))"

text \<open>
  A year bound is \<^verbatim>\<open>null\<close> (\<open>None\<close>) when its control is empty, else what
  \<^verbatim>\<open>parseInt\<close> gives. The code tests a bound by its truthiness: \<^verbatim>\<open>null\<close>, \<^verbatim>\<open>NaN\<close>
  and \<open>0\<close> are falsy.
\<close>

definition truthy :: "js_number option \<Rightarrow> bool" where
  "truthy v = (case v of None \<Rightarrow> False | Some NaN \<Rightarrow> False | Some (Num n) \<Rightarrow> n \<noteq> 0)"

definition num_lt :: "int \<Rightarrow> js_number option \<Rightarrow> bool" where
  "num_lt y v = (case v of None \<Rightarrow> y < 0 | Some NaN \<Rightarrow> False | Some (Num n) \<Rightarrow> y < n)"

definition num_gt :: "int \<Rightarrow> js_number option \<Rightarrow> bool" where
  "num_gt y v = (case v of None \<Rightarrow> y > 0 | Some NaN \<Rightarrow> False | Some (Num n) \<Rightarrow> y > n)"

text \<open>The last block of the filter callback: the year range.\<close>

definition year_ok :: "js_number option \<Rightarrow> js_number option \<Rightarrow> entry \<Rightarrow> bool" where
  "year_ok fy1 fy2 r =
     (if truthy fy1 \<or> truthy fy2 then
        (case parseInt (take 4 (or_empty (date r))) of
           NaN \<Rightarrow> False
         | Num y \<Rightarrow>
             if truthy fy1 \<and> num_lt y fy1 then False
             else if truthy fy2 \<and> num_gt y fy2 then False
             else True)
      else True)"

text \<open>The callback of \<^verbatim>\<open>allReviews.filter\<close>, with the constants computed before it.\<close>

definition keep ::
  "string \<Rightarrow> string \<Rightarrow> string \<Rightarrow> string \<Rightarrow> js_number option \<Rightarrow> js_number option \<Rightarrow>
   string \<Rightarrow> string \<Rightarrow> bool \<Rightarrow> bool \<Rightarrow> string list \<Rightarrow> string list \<Rightarrow> entry \<Rightarrow> bool" where
  "keep g ft fa fr fy1 fy2 fac ftype filterByJournal filterBySubfield selJ selS r =
     (if g \<noteq> [] \<and> \<not> includes_str (blob r) g then False
      else if ft \<noteq> [] \<and> \<not> includes_str (toLowerCase (title r)) ft then False
      else if fa \<noteq> [] \<and> \<not> includes_str (toLowerCase (author r)) fa then False
      else if fr \<noteq> [] \<and> \<not> includes_str (toLowerCase (reviewer r)) fr then False
      else if filterByJournal \<and> \<not> set_has selJ (Some (journal r)) then False
      else if filterBySubfield \<and> \<not> set_has selS (subfield r) \<and> \<not> set_has selS (subfield2 r)
        then False
      else if fac \<noteq> [] \<and> toLowerCase (access r) \<noteq> fac then False
      else if ftype \<noteq> [] \<and> (if or_empty (type r) \<noteq> [] then or_empty (type r) else ''review'') \<noteq> ftype
        then False
      else year_ok fy1 fy2 r)"

definition applyFilters :: "app \<Rightarrow> app" where
  "applyFilters st =
     (let g = trim (toLowerCase (globalSearch st));
          ft = trim (toLowerCase (titleFilter st));
          fa = trim (toLowerCase (authorFilter st));
          fr = trim (toLowerCase (reviewerFilter st));
          fy1 = (if yearFrom st \<noteq> [] then Some (parseInt (yearFrom st)) else None);
          fy2 = (if yearTo st \<noteq> [] then Some (parseInt (yearTo st)) else None);
          fac = toLowerCase (accessFilter st);
          ftype = typeFilter st;
          filterByJournal = (length (selectedJournals st) < length (allJournals st));
          filterBySubfield = (length (selectedSubfields st) < length (allSubfields st))
      in st\<lparr>filtered :=
              filter (keep g ft fa fr fy1 fy2 fac ftype filterByJournal filterBySubfield
                        (selectedJournals st) (selectedSubfields st))
                     (allReviews st)\<rparr>)"

section \<open>Sorting\<close>

text \<open>\<^verbatim>\<open>a[key]\<close> on an entry: its own properties; any other key is \<^verbatim>\<open>undefined\<close>.\<close>

definition get_field :: "string \<Rightarrow> entry \<Rightarrow> string option" where
  "get_field key r =
     (if key = ''title'' then Some (title r)
      else if key = ''author'' then Some (author r)
      else if key = ''reviewer'' then Some (reviewer r)
      else if key = ''journal'' then Some (journal r)
      else if key = ''date'' then date r
      else if key = ''access'' then Some (access r)
      else if key = ''summary'' then summary r
      else if key = ''link'' then link r
      else if key = ''type'' then type r
      else if key = ''subfield'' then subfield r
      else if key = ''subfield2'' then subfield2 r
      else if key = ''symposium_group'' then symposium_group r
      else None)"

text \<open>The direction factor of \<^verbatim>\<open>applySort\<close>: 1 for \<^verbatim>\<open>"asc"\<close>, -1 for anything else.\<close>

definition dir_of :: "string \<Rightarrow> int" where
  "dir_of d = (if d = ''asc'' then 1 else - 1)"

definition comparator ::
  "(string \<Rightarrow> string \<Rightarrow> int) \<Rightarrow> string \<Rightarrow> int \<Rightarrow> entry \<Rightarrow> entry \<Rightarrow> int" where
  "comparator lc key dir a b =
     (let va = toLowerCase (or_empty (get_field key a));
          vb = toLowerCase (or_empty (get_field key b))
      in dir * lc va vb)"

definition applySort :: "(string \<Rightarrow> string \<Rightarrow> int) \<Rightarrow> app \<Rightarrow> app" where
  "applySort lc st =
     (let key = sortKey st; dir = dir_of (sortDir st)
      in st\<lparr>filtered := sort_by (comparator lc key dir) (filtered st)\<rparr>)"

section \<open>Rendering and pagination\<close>

text \<open>The \<^verbatim>\<open>for\<close> loop of \<^verbatim>\<open>renderPagination\<close>, pushing the pages \<open>i, \<dots>, hi\<close>.\<close>

function push_pages :: "int \<Rightarrow> int \<Rightarrow> page_item list \<Rightarrow> page_item list" where
  "push_pages i hi pages = (if i \<le> hi then push_pages (i + 1) hi (pages @ [Page i]) else pages)"
  by pat_completeness auto
termination
  by (relation "measure (\<lambda>(i, hi, pages). nat (hi + 1 - i))") auto

declare push_pages.simps [simp del]

text \<open>The array \<^verbatim>\<open>pages\<close> that \<^verbatim>\<open>renderPagination\<close> builds when it renders anything.\<close>

definition page_window :: "int \<Rightarrow> int \<Rightarrow> page_item list" where
  "page_window totalPages p =
     (let pages = [Page 1];
          pages = (if p > 3 then pages @ [Ellipsis] else pages);
          pages = push_pages (max 2 (p - 1)) (min (totalPages - 1) (p + 1)) pages;
          pages = (if p < totalPages - 2 then pages @ [Ellipsis] else pages);
          pages = (if totalPages > 1 then pages @ [Page totalPages] else pages)
      in pages)"

definition renderPagination :: "int \<Rightarrow> app \<Rightarrow> app" where
  "renderPagination totalPages st =
     (if totalPages \<le> 1 then st\<lparr>pagination := []\<rparr>
      else st\<lparr>pagination := page_window totalPages (page st)\<rparr>)"

text \<open>
  \<^verbatim>\<open>Math.max(1, Math.ceil(count / perPage))\<close> for a positive page size, in integer
  arithmetic: \<open>- ((- c) div s)\<close> is the ceiling of \<open>c / s\<close>.
\<close>

definition total_pages :: "int \<Rightarrow> int \<Rightarrow> int" where
  "total_pages count per = max 1 (- ((- count) div per))"

text \<open>
  \<^verbatim>\<open>render\<close>: sort, clamp the page down to the last page, rebuild the pagination control.
  The table rows it writes depend on the state and do not change it; they are left out.
\<close>

definition render :: "(string \<Rightarrow> string \<Rightarrow> int) \<Rightarrow> app \<Rightarrow> app" where
  "render lc st =
     (let st = applySort lc st;
          count = int (length (filtered st));
          totalPages = total_pages count (perPage st);
          st = (if page st > totalPages then st\<lparr>page := totalPages\<rparr> else st)
      in renderPagination totalPages st)"

definition update :: "(string \<Rightarrow> string \<Rightarrow> int) \<Rightarrow> app \<Rightarrow> app" where
  "update lc st = render lc (applyFilters st)"

section \<open>URL persistence\<close>

text \<open>\<^verbatim>\<open>if (c) params.set(k, v);\<close>\<close>

definition set_if :: "bool \<Rightarrow> string \<Rightarrow> string \<Rightarrow> params \<Rightarrow> params" where
  "set_if c k v ps = (if c then params_set k v ps else ps)"

text \<open>
  The parameters \<^verbatim>\<open>syncToUrl\<close> collects, in the order of the source (the innermost
  \<open>set_if\<close> runs first).
\<close>

definition url_params :: "app \<Rightarrow> params" where
  "url_params st =
     (let g = trim (globalSearch st);
          ft = trim (titleFilter st);
          fa = trim (authorFilter st);
          fr = trim (reviewerFilter st);
          y1 = yearFrom st;
          y2 = yearTo st;
          ac = accessFilter st;
          tp = typeFilter st;
          defaultSort = (sortKey st = ''date'' \<and> sortDir st = ''desc'')
      in set_if (page st > 1) ''page'' (show_int (page st))
        (set_if (\<not> defaultSort) ''sort'' (sortKey st @ ''-'' @ sortDir st)
        (set_if (tp \<noteq> []) ''type'' tp
        (set_if (ac \<noteq> []) ''access'' ac
        (set_if (y1 \<noteq> [] \<or> y2 \<noteq> []) ''year'' (y1 @ ''-'' @ y2)
        (set_if (length (selectedJournals st) > 0
                   \<and> length (selectedJournals st) < length (allJournals st))
                ''journals'' (join CHR '','' (selectedJournals st))
        (set_if (length (selectedSubfields st) > 0
                   \<and> length (selectedSubfields st) < length (allSubfields st))
                ''subfield'' (join CHR '','' (selectedSubfields st))
        (set_if (fr \<noteq> []) ''reviewer'' fr
        (set_if (fa \<noteq> []) ''author'' fa
        (set_if (ft \<noteq> []) ''title'' ft
        (set_if (g \<noteq> []) ''q'' g [])))))))))))"

definition syncToUrl :: "app \<Rightarrow> app" where
  "syncToUrl st = st\<lparr>location_hash := url_params st\<rparr>"

text \<open>
  \<^verbatim>\<open>if (params.has(k)) ...params.get(k)...\<close>: the steps of \<^verbatim>\<open>readFromUrl\<close>.
  Assigning to the value of a form control is a plain store.
\<close>

definition read_param :: "string \<Rightarrow> (string \<Rightarrow> app \<Rightarrow> app) \<Rightarrow> params \<Rightarrow> app \<Rightarrow> app" where
  "read_param k f ps st = (if params_has ps k then f (params_get ps k) st else st)"

definition read_subfield :: "string \<Rightarrow> app \<Rightarrow> app" where
  "read_subfield v st =
     (let codes = js_split CHR '','' v
      in st\<lparr>selectedSubfields := new_Set (filter (\<lambda>c. c \<in> set (allSubfields st)) codes)\<rparr>)"

definition read_journals :: "string \<Rightarrow> app \<Rightarrow> app" where
  "read_journals v st =
     (let names = js_split CHR '','' v
      in st\<lparr>selectedJournals := new_Set (filter (\<lambda>n. n \<in> set (allJournals st)) names)\<rparr>)"

definition read_year :: "string \<Rightarrow> app \<Rightarrow> app" where
  "read_year v st =
     (let parts = js_split CHR ''-'' v;
          p0 = or_empty (at_index parts 0);
          p1 = or_empty (at_index parts 1);
          st = (if p0 \<noteq> [] then st\<lparr>yearFrom := p0\<rparr> else st)
      in if p1 \<noteq> [] then st\<lparr>yearTo := p1\<rparr> else st)"

definition read_sort :: "string \<Rightarrow> app \<Rightarrow> app" where
  "read_sort v st =
     (let sp = js_split CHR ''-'' v
      in if length sp = 2 then st\<lparr>sortKey := sp ! 0, sortDir := sp ! 1\<rparr> else st)"

text \<open>\<^verbatim>\<open>parseInt(v, 10) || 1\<close>: \<^verbatim>\<open>NaN\<close> and \<open>0\<close> are falsy.\<close>

definition page_or_1 :: "string \<Rightarrow> int" where
  "page_or_1 v = (case parseInt v of NaN \<Rightarrow> 1 | Num n \<Rightarrow> if n = 0 then 1 else n)"

text \<open>The body of \<^verbatim>\<open>readFromUrl\<close> on the parsed fragment \<open>ps\<close>; the last step is outermost.\<close>

definition decode :: "params \<Rightarrow> app \<Rightarrow> app" where
  "decode ps st =
     read_param ''page'' (\<lambda>v s. s\<lparr>page := page_or_1 v\<rparr>) ps
    (read_param ''sort'' read_sort ps
    (read_param ''type'' (\<lambda>v s. s\<lparr>typeFilter := v\<rparr>) ps
    (read_param ''access'' (\<lambda>v s. s\<lparr>accessFilter := v\<rparr>) ps
    (read_param ''year'' read_year ps
    (read_param ''journals'' read_journals ps
    (read_param ''subfield'' read_subfield ps
    (read_param ''reviewer'' (\<lambda>v s. s\<lparr>reviewerFilter := v\<rparr>) ps
    (read_param ''author'' (\<lambda>v s. s\<lparr>authorFilter := v\<rparr>) ps
    (read_param ''title'' (\<lambda>v s. s\<lparr>titleFilter := v\<rparr>) ps
    (read_param ''q'' (\<lambda>v s. s\<lparr>globalSearch := v\<rparr>) ps st))))))))))"

definition readFromUrl :: "app \<Rightarrow> app" where
  "readFromUrl st = (let ps = location_hash st in if ps = [] then st else decode ps st)"

section \<open>Clearing, start-up and the event handlers\<close>

definition clearFilters :: "(string \<Rightarrow> string \<Rightarrow> int) \<Rightarrow> app \<Rightarrow> app" where
  "clearFilters lc st =
     update lc (st\<lparr>globalSearch := [], titleFilter := [], authorFilter := [],
                   reviewerFilter := [], yearFrom := [], yearTo := [], accessFilter := [],
                   typeFilter := [],
                   selectedSubfields := new_Set (allSubfields st),
                   selectedJournals := new_Set (allJournals st),
                   page := 1, expandedIdx := None\<rparr>)"

text \<open>\<^verbatim>\<open>s.replace(/^The /i, '')\<close>, the key the journal list is ordered by.\<close>

definition journal_sort_key :: "string \<Rightarrow> string" where
  "journal_sort_key s = (if toLowerCase (take 4 s) = ''the '' then drop 4 s else s)"

definition journal_list :: "(string \<Rightarrow> string \<Rightarrow> int) \<Rightarrow> entry list \<Rightarrow> string list" where
  "journal_list lc rs =
     sort_by (\<lambda>a b. lc (journal_sort_key a) (journal_sort_key b)) (new_Set (map journal rs))"

text \<open>
  The state before the fragment is read: the dataset, the values of the subfield
  checkboxes of the page, every facet value selected, empty controls.
\<close>

definition fresh :: "entry list \<Rightarrow> string list \<Rightarrow> string list \<Rightarrow> params \<Rightarrow> app" where
  "fresh rs js sfs h =
     \<lparr>allReviews = rs, filtered = [], allJournals = js, selectedJournals = new_Set js,
      allSubfields = sfs, selectedSubfields = new_Set sfs,
      page = 1, perPage = 25, sortKey = ''date'', sortDir = ''desc'', expandedIdx = None,
      globalSearch = [], titleFilter = [], authorFilter = [], reviewerFilter = [],
      yearFrom = [], yearTo = [], accessFilter = [], typeFilter = [],
      pagination = [], location_hash = h\<rparr>"

text \<open>The \<^verbatim>\<open>DOMContentLoaded\<close> handler, for a page opened with fragment \<open>h\<close>.\<close>

definition init ::
  "(string \<Rightarrow> string \<Rightarrow> int) \<Rightarrow> entry list \<Rightarrow> string list \<Rightarrow> params \<Rightarrow> app" where
  "init lc rs sfs h = update lc (readFromUrl (fresh rs (journal_list lc rs) sfs h))"

text \<open>
  The event handlers. An event that edits a form control carries the control and its new
  value; the handler then runs as in the source (for the text inputs, after the debounce
  delay). Handlers that only toggle CSS classes or report a click are left out: they
  touch nothing of the state.
\<close>

datatype control =
  GlobalSearch | TitleFilter | AuthorFilter | ReviewerFilter
  | YearFrom | YearTo | AccessFilter | TypeFilter

definition set_control :: "control \<Rightarrow> string \<Rightarrow> app \<Rightarrow> app" where
  "set_control c v st =
     (case c of
        GlobalSearch \<Rightarrow> st\<lparr>globalSearch := v\<rparr>
      | TitleFilter \<Rightarrow> st\<lparr>titleFilter := v\<rparr>
      | AuthorFilter \<Rightarrow> st\<lparr>authorFilter := v\<rparr>
      | ReviewerFilter \<Rightarrow> st\<lparr>reviewerFilter := v\<rparr>
      | YearFrom \<Rightarrow> st\<lparr>yearFrom := v\<rparr>
      | YearTo \<Rightarrow> st\<lparr>yearTo := v\<rparr>
      | AccessFilter \<Rightarrow> st\<lparr>accessFilter := v\<rparr>
      | TypeFilter \<Rightarrow> st\<lparr>typeFilter := v\<rparr>)"

text \<open>\<^verbatim>\<open>state.page = 1; update(); syncToUrl();\<close>, the tail of every filter handler.\<close>

definition refilter :: "(string \<Rightarrow> string \<Rightarrow> int) \<Rightarrow> app \<Rightarrow> app" where
  "refilter lc st = syncToUrl (update lc (st\<lparr>page := 1\<rparr>))"

definition clear_click :: "(string \<Rightarrow> string \<Rightarrow> int) \<Rightarrow> app \<Rightarrow> app" where
  "clear_click lc st = syncToUrl (clearFilters lc st)"

text \<open>The page-size select holds integers; \<open>n\<close> is the parsed value of the chosen one.\<close>

definition perPage_change :: "(string \<Rightarrow> string \<Rightarrow> int) \<Rightarrow> int \<Rightarrow> app \<Rightarrow> app" where
  "perPage_change lc n st = syncToUrl (render lc (st\<lparr>perPage := n, page := 1\<rparr>))"

definition control_input :: "(string \<Rightarrow> string \<Rightarrow> int) \<Rightarrow> control \<Rightarrow> string \<Rightarrow> app \<Rightarrow> app" where
  "control_input lc c v st = refilter lc (set_control c v st)"

definition subfield_select_all :: "(string \<Rightarrow> string \<Rightarrow> int) \<Rightarrow> app \<Rightarrow> app" where
  "subfield_select_all lc st = refilter lc (st\<lparr>selectedSubfields := new_Set (allSubfields st)\<rparr>)"

definition subfield_select_none :: "(string \<Rightarrow> string \<Rightarrow> int) \<Rightarrow> app \<Rightarrow> app" where
  "subfield_select_none lc st = refilter lc (st\<lparr>selectedSubfields := []\<rparr>)"

definition subfield_checkbox ::
  "(string \<Rightarrow> string \<Rightarrow> int) \<Rightarrow> string \<Rightarrow> bool \<Rightarrow> app \<Rightarrow> app" where
  "subfield_checkbox lc v checked st =
     refilter lc (if checked then st\<lparr>selectedSubfields := set_add v (selectedSubfields st)\<rparr>
                  else st\<lparr>selectedSubfields := set_delete v (selectedSubfields st)\<rparr>)"

definition journal_select_all :: "(string \<Rightarrow> string \<Rightarrow> int) \<Rightarrow> app \<Rightarrow> app" where
  "journal_select_all lc st = refilter lc (st\<lparr>selectedJournals := new_Set (allJournals st)\<rparr>)"

definition journal_select_none :: "(string \<Rightarrow> string \<Rightarrow> int) \<Rightarrow> app \<Rightarrow> app" where
  "journal_select_none lc st = refilter lc (st\<lparr>selectedJournals := []\<rparr>)"

definition journal_checkbox ::
  "(string \<Rightarrow> string \<Rightarrow> int) \<Rightarrow> string \<Rightarrow> bool \<Rightarrow> app \<Rightarrow> app" where
  "journal_checkbox lc v checked st =
     refilter lc (if checked then st\<lparr>selectedJournals := set_add v (selectedJournals st)\<rparr>
                  else st\<lparr>selectedJournals := set_delete v (selectedJournals st)\<rparr>)"

text \<open>The click handler of a sortable column header whose \<^verbatim>\<open>data-sort\<close> is \<open>key\<close>.\<close>

definition sort_click :: "(string \<Rightarrow> string \<Rightarrow> int) \<Rightarrow> string \<Rightarrow> app \<Rightarrow> app" where
  "sort_click lc key st =
     (let st = (if sortKey st = key
                then st\<lparr>sortDir := (if sortDir st = ''asc'' then ''desc'' else ''asc'')\<rparr>
                else st\<lparr>sortKey := key, sortDir := (if key = ''date'' then ''desc'' else ''asc'')\<rparr>)
      in syncToUrl (render lc (st\<lparr>page := 1\<rparr>)))"

definition source_card_click :: "(string \<Rightarrow> string \<Rightarrow> int) \<Rightarrow> string \<Rightarrow> app \<Rightarrow> app" where
  "source_card_click lc j st =
     (let st = clearFilters lc st;
          st = st\<lparr>selectedJournals := new_Set [j]\<rparr>;
          st = st\<lparr>sortKey := ''date'', sortDir := ''desc'', page := 1\<rparr>
      in syncToUrl (update lc st))"

definition browse_recent_click :: "(string \<Rightarrow> string \<Rightarrow> int) \<Rightarrow> app \<Rightarrow> app" where
  "browse_recent_click lc st =
     (let st = clearFilters lc st;
          st = st\<lparr>sortKey := ''date'', sortDir := ''desc'', page := 1\<rparr>
      in syncToUrl (update lc st))"

text \<open>Back or forward: the browser has put the fragment \<open>h\<close> into the location.\<close>

definition popstate :: "(string \<Rightarrow> string \<Rightarrow> int) \<Rightarrow> params \<Rightarrow> app \<Rightarrow> app" where
  "popstate lc h st = update lc (readFromUrl (st\<lparr>location_hash := h\<rparr>))"

definition row_click :: "(string \<Rightarrow> string \<Rightarrow> int) \<Rightarrow> int \<Rightarrow> app \<Rightarrow> app" where
  "row_click lc idx st =
     render lc (st\<lparr>expandedIdx := (if expandedIdx st = Some idx then None else Some idx)\<rparr>)"

text \<open>A name link of kind \<open>tp\<close> (author, reviewer or journal) showing the text \<open>v\<close>.\<close>

definition name_link_click ::
  "(string \<Rightarrow> string \<Rightarrow> int) \<Rightarrow> string \<Rightarrow> string \<Rightarrow> app \<Rightarrow> app" where
  "name_link_click lc tp v st =
     (let st = clearFilters lc st;
          st = (if tp = ''journal'' then st\<lparr>selectedJournals := new_Set [v]\<rparr>
                else st\<lparr>globalSearch := v\<rparr>);
          st = st\<lparr>sortKey := ''date'', sortDir := ''desc'', page := 1\<rparr>
      in syncToUrl (update lc st))"

text \<open>
  A button of the pagination control with \<^verbatim>\<open>data-p\<close> \<open>np\<close>; \<^verbatim>\<open>totalPages\<close> is the
  value of the render that built the button.
\<close>

definition page_click :: "(string \<Rightarrow> string \<Rightarrow> int) \<Rightarrow> int \<Rightarrow> app \<Rightarrow> app" where
  "page_click lc np st =
     (let totalPages = total_pages (int (length (filtered st))) (perPage st)
      in if np \<ge> 1 \<and> np \<le> totalPages then syncToUrl (render lc (st\<lparr>page := np\<rparr>)) else st)"

datatype event =
  ClearClick
  | PerPageChange int
  | ControlInput control string
  | SubfieldSelectAll | SubfieldSelectNone | SubfieldCheckbox string bool
  | JournalSelectAll | JournalSelectNone | JournalCheckbox string bool
  | SortClick string
  | SourceCardClick string
  | BrowseRecentClick
  | Popstate params
  | RowClick int
  | NameLinkClick string string
  | PageClick int

fun dispatch :: "(string \<Rightarrow> string \<Rightarrow> int) \<Rightarrow> event \<Rightarrow> app \<Rightarrow> app" where
  "dispatch lc ClearClick st = clear_click lc st"
| "dispatch lc (PerPageChange n) st = perPage_change lc n st"
| "dispatch lc (ControlInput c v) st = control_input lc c v st"
| "dispatch lc SubfieldSelectAll st = subfield_select_all lc st"
| "dispatch lc SubfieldSelectNone st = subfield_select_none lc st"
| "dispatch lc (SubfieldCheckbox v checked) st = subfield_checkbox lc v checked st"
| "dispatch lc JournalSelectAll st = journal_select_all lc st"
| "dispatch lc JournalSelectNone st = journal_select_none lc st"
| "dispatch lc (JournalCheckbox v checked) st = journal_checkbox lc v checked st"
| "dispatch lc (SortClick key) st = sort_click lc key st"
| "dispatch lc (SourceCardClick j) st = source_card_click lc j st"
| "dispatch lc BrowseRecentClick st = browse_recent_click lc st"
| "dispatch lc (Popstate h) st = popstate lc h st"
| "dispatch lc (RowClick idx) st = row_click lc idx st"
| "dispatch lc (NameLinkClick tp v) st = name_link_click lc tp v st"
| "dispatch lc (PageClick np) st = page_click lc np st"

section \<open>Notions used in the statements\<close>

text \<open>
  The journal test and the subfield test of the filter callback, on their own: an entry
  passes the facet unless the facet filters and the entry's value is not selected.
\<close>

definition journal_facet_passes :: "app \<Rightarrow> entry \<Rightarrow> bool" where
  "journal_facet_passes st r \<longleftrightarrow>
     \<not> (length (selectedJournals st) < length (allJournals st)
        \<and> \<not> set_has (selectedJournals st) (Some (journal r)))"

definition subfield_facet_passes :: "app \<Rightarrow> entry \<Rightarrow> bool" where
  "subfield_facet_passes st r \<longleftrightarrow>
     \<not> (length (selectedSubfields st) < length (allSubfields st)
        \<and> \<not> set_has (selectedSubfields st) (subfield r)
        \<and> \<not> set_has (selectedSubfields st) (subfield2 r))"

text \<open>Two states with the same dataset, sort order and form controls.\<close>

definition same_filter_inputs :: "app \<Rightarrow> app \<Rightarrow> bool" where
  "same_filter_inputs a b \<longleftrightarrow>
     allReviews a = allReviews b \<and> allJournals a = allJournals b
     \<and> allSubfields a = allSubfields b
     \<and> sortKey a = sortKey b \<and> sortDir a = sortDir b
     \<and> globalSearch a = globalSearch b \<and> titleFilter a = titleFilter b
     \<and> authorFilter a = authorFilter b \<and> reviewerFilter a = reviewerFilter b
     \<and> yearFrom a = yearFrom b \<and> yearTo a = yearTo b
     \<and> accessFilter a = accessFilter b \<and> typeFilter a = typeFilter b"


text \<open>
  Two states with an equivalent filter, sort and page state: the text filters agree up to
  surrounding white space (which \<^verbatim>\<open>applyFilters\<close> and \<^verbatim>\<open>syncToUrl\<close> both trim), the
  selected facet values agree as sets, everything else is equal. The expanded index and
  the page size are not compared.
\<close>

definition view_equiv :: "app \<Rightarrow> app \<Rightarrow> bool" where
  "view_equiv a b \<longleftrightarrow>
     trim (globalSearch a) = trim (globalSearch b)
     \<and> trim (titleFilter a) = trim (titleFilter b)
     \<and> trim (authorFilter a) = trim (authorFilter b)
     \<and> trim (reviewerFilter a) = trim (reviewerFilter b)
     \<and> yearFrom a = yearFrom b \<and> yearTo a = yearTo b
     \<and> accessFilter a = accessFilter b \<and> typeFilter a = typeFilter b
     \<and> set (selectedJournals a) = set (selectedJournals b)
     \<and> set (selectedSubfields a) = set (selectedSubfields b)
     \<and> sortKey a = sortKey b \<and> sortDir a = sortDir b
     \<and> page a = page b"

text \<open>
  Opening the URL that \<^verbatim>\<open>syncToUrl\<close> writes in a new page with the same dataset: the
  state starts from its defaults and \<^verbatim>\<open>readFromUrl\<close> reads the fragment.
\<close>

definition reload :: "app \<Rightarrow> app" where
  "reload st =
     readFromUrl (fresh (allReviews st) (allJournals st) (allSubfields st)
                    (location_hash (syncToUrl st)))"

section \<open>The specification's wording of two functions\<close>


text \<open>
  The page window as the specification words it: page 1, an ellipsis if pages are hidden
  before the range, the range \<open>[p - 1, p + 1]\<close> cut to \<open>[2, totalPages - 1]\<close>, an ellipsis
  if pages are hidden after it, the last page.
\<close>

definition spec_window :: "int \<Rightarrow> int \<Rightarrow> page_item list" where
  "spec_window totalPages p =
     (let lo = max 2 (p - 1); hi = min (totalPages - 1) (p + 1)
      in [Page 1] @ (if 2 < lo then [Ellipsis] else []) @ map Page [lo..hi]
         @ (if hi < totalPages - 1 then [Ellipsis] else []) @ [Page totalPages])"

section \<open>Sample data\<close>

text \<open>
  A small dataset for the concrete instances below, and an ordering of strings by their
  characters that stands for \<^verbatim>\<open>localeCompare\<close> there.
\<close>

fun code_unit_compare :: "string \<Rightarrow> string \<Rightarrow> int" where
  "code_unit_compare [] [] = 0"
| "code_unit_compare [] (y # ys) = - 1"
| "code_unit_compare (x # xs) [] = 1"
| "code_unit_compare (x # xs) (y # ys) =
     (if (of_char x :: nat) < of_char y then - 1
      else if (of_char y :: nat) < of_char x then 1
      else code_unit_compare xs ys)"

definition hobbes_entry :: entry where
  "hobbes_entry =
     \<lparr>title = ''Leviathan Revisited'', author = ''Thomas Hobbes'', reviewer = ''A. Reader'',
      journal = ''Mind'', date = Some ''2012-05-01'', access = ''Open'', summary = None,
      link = None, type = None, subfield = None, subfield2 = None, symposium_group = None\<rparr>"

definition ethics_entry :: entry where
  "ethics_entry =
     \<lparr>title = ''On Virtue'', author = ''P. Foot'', reviewer = ''B. Critic'',
      journal = ''Politics, Philosophy & Economics'', date = Some ''2009-01-01'',
      access = ''Restricted'', summary = None, link = None, type = None,
      subfield = Some ''ethics'', subfield2 = None, symposium_group = None\<rparr>"

definition demo_state :: app where
  "demo_state =
     fresh [hobbes_entry, ethics_entry] [''Mind'', ''Politics, Philosophy & Economics'']
       [''ethics'', ''legal''] []"


section \<open>Basic facts about the pipeline\<close>

lemma if_False_else: "(if c then False else b) \<longleftrightarrow> \<not> c \<and> b"
  by simp

lemma keep_conj:
  "keep g ft fa fr fy1 fy2 fac ftype filterByJournal filterBySubfield selJ selS r \<longleftrightarrow>
     \<not> (g \<noteq> [] \<and> \<not> includes_str (blob r) g) \<and>
     \<not> (ft \<noteq> [] \<and> \<not> includes_str (toLowerCase (title r)) ft) \<and>
     \<not> (fa \<noteq> [] \<and> \<not> includes_str (toLowerCase (author r)) fa) \<and>
     \<not> (fr \<noteq> [] \<and> \<not> includes_str (toLowerCase (reviewer r)) fr) \<and>
     \<not> (filterByJournal \<and> \<not> set_has selJ (Some (journal r))) \<and>
     \<not> (filterBySubfield \<and> \<not> set_has selS (subfield r) \<and> \<not> set_has selS (subfield2 r)) \<and>
     \<not> (fac \<noteq> [] \<and> toLowerCase (access r) \<noteq> fac) \<and>
     \<not> (ftype \<noteq> [] \<and>
         (if or_empty (type r) \<noteq> [] then or_empty (type r) else ''review'') \<noteq> ftype) \<and>
     year_ok fy1 fy2 r"
  unfolding keep_def if_False_else by (rule refl)

lemma filtered_applyFilters:
  "filtered (applyFilters st) =
     filter (keep (trim (toLowerCase (globalSearch st))) (trim (toLowerCase (titleFilter st)))
               (trim (toLowerCase (authorFilter st))) (trim (toLowerCase (reviewerFilter st)))
               (if yearFrom st \<noteq> [] then Some (parseInt (yearFrom st)) else None)
               (if yearTo st \<noteq> [] then Some (parseInt (yearTo st)) else None)
               (toLowerCase (accessFilter st)) (typeFilter st)
               (length (selectedJournals st) < length (allJournals st))
               (length (selectedSubfields st) < length (allSubfields st))
               (selectedJournals st) (selectedSubfields st))
            (allReviews st)"
  unfolding applyFilters_def Let_def by simp

lemma set_insert_by: "set (insert_by c x ys) = insert x (set ys)"
  by (induction ys) auto

lemma set_sort_by: "set (sort_by c xs) = set xs"
  by (induction xs) (simp_all add: sort_by_def set_insert_by)

lemma length_insert_by: "length (insert_by c x ys) = Suc (length ys)"
  by (induction ys) auto

lemma length_sort_by: "length (sort_by c xs) = length xs"
  by (induction xs) (simp_all add: sort_by_def length_insert_by)

lemma filtered_renderPagination: "filtered (renderPagination t st) = filtered st"
  by (simp add: renderPagination_def)

lemma filtered_render:
  "filtered (render lc st) =
     sort_by (comparator lc (sortKey st) (dir_of (sortDir st))) (filtered st)"
  by (simp add: render_def applySort_def Let_def filtered_renderPagination)

lemma filtered_update_set: "set (filtered (update lc st)) = set (filtered (applyFilters st))"
  by (simp only: update_def filtered_render set_sort_by)

lemma strict_subset_size:
  assumes "distinct sel" and "set sel \<subset> set all"
  shows "length sel < length all"
proof -
  have "card (set sel) < card (set all)"
    using assms(2) by (simp add: psubset_card_mono)
  moreover have "card (set sel) = length sel"
    using assms(1) by (simp add: distinct_card)
  moreover have "card (set all) \<le> length all"
    by (rule card_length)
  ultimately show ?thesis by linarith
qed

lemma total_pages_ceiling:
  assumes "0 < s"
  shows "total_pages c s = max 1 \<lceil>real_of_int c / real_of_int s\<rceil>"
  by (simp add: total_pages_def ceiling_divide_eq_div)

lemma total_pages_ge_1: "1 \<le> total_pages c s"
  by (simp add: total_pages_def)

lemma page_render:
  "page (render lc st) =
     (if page st > total_pages (int (length (filtered st))) (perPage st)
      then total_pages (int (length (filtered st))) (perPage st) else page st)"
  by (simp add: render_def applySort_def renderPagination_def Let_def length_sort_by)

lemma render_page_le:
  "page (render lc st) \<le> total_pages (int (length (filtered (render lc st)))) (perPage (render lc st))"
  by (simp add: page_render filtered_render length_sort_by render_def applySort_def renderPagination_def Let_def)

lemma render_page_ge: "1 \<le> page st \<Longrightarrow> 1 \<le> page (render lc st)"
  by (simp add: page_render total_pages_ge_1)

section \<open>The year range\<close>

text \<open>
  The year block of the filter, for bounds that are in effect: the entry passes exactly
  when the first four characters of its date parse to a year within the bounds. A bound
  is in effect when it is truthy; an empty control, a text that does not parse and the
  number 0 are not.
\<close>

lemma year_ok_unset: "\<not> truthy fy1 \<Longrightarrow> \<not> truthy fy2 \<Longrightarrow> year_ok fy1 fy2 r"
  by (simp add: year_ok_def)

lemma year_ok_set:
  assumes "truthy fy1 \<or> truthy fy2"
  shows "year_ok fy1 fy2 r \<longleftrightarrow>
     (\<exists>y. parseInt (take 4 (or_empty (date r))) = Num y
          \<and> (\<forall>n. fy1 = Some (Num n) \<and> n \<noteq> 0 \<longrightarrow> n \<le> y)
          \<and> (\<forall>n. fy2 = Some (Num n) \<and> n \<noteq> 0 \<longrightarrow> y \<le> n))"
  using assms
  by (cases "parseInt (take 4 (or_empty (date r)))")
     (auto simp: year_ok_def truthy_def num_lt_def num_gt_def split: option.splits js_number.splits)

text \<open>
  Claim C3. The entry's year is parsed from the first four characters of its date; an
  entry whose year does not parse is excluded whenever a year bound is set, and otherwise
  it passes exactly when its year is within the bounds that are set. The code tests each
  bound by truthiness, so the bound 0 is treated as not set: with \<open>yearTo\<close> set to \<open>0\<close>
  and \<open>yearFrom\<close> empty the whole year block is skipped, an entry of 2012 is kept
  although \<open>2012 > 0\<close>, and so is an entry whose date does not parse.
\<close>

theorem zero_year_bound_ignored:
  "yearTo (control_input code_unit_compare YearTo ''0'' demo_state) = ''0''
   \<and> date hobbes_entry = Some ''2012-05-01''
   \<and> hobbes_entry \<in> set (filtered (control_input code_unit_compare YearTo ''0'' demo_state))
   \<and> filtered (control_input code_unit_compare YearTo ''0''
        (demo_state\<lparr>allReviews := [hobbes_entry\<lparr>date := Some ''n.d.''\<rparr>]\<rparr>))
       = [hobbes_entry\<lparr>date := Some ''n.d.''\<rparr>]"
  by code_simp

section \<open>Sort key and direction\<close>

lemma sort_syncToUrl: "sortKey (syncToUrl st) = sortKey st" "sortDir (syncToUrl st) = sortDir st"
  by (simp_all add: syncToUrl_def)

lemma sort_render: "sortKey (render lc st) = sortKey st" "sortDir (render lc st) = sortDir st"
  by (simp_all add: render_def applySort_def renderPagination_def Let_def)

lemma sort_applyFilters:
  "sortKey (applyFilters st) = sortKey st" "sortDir (applyFilters st) = sortDir st"
  by (simp_all add: applyFilters_def Let_def)

lemma sort_update: "sortKey (update lc st) = sortKey st" "sortDir (update lc st) = sortDir st"
  by (simp_all add: update_def sort_render sort_applyFilters)



lemma shortcuts_reset_sort:
  "sortKey (name_link_click lc tp v st) = ''date'' \<and> sortDir (name_link_click lc tp v st) = ''desc''"
  "sortKey (source_card_click lc j st) = ''date'' \<and> sortDir (source_card_click lc j st) = ''desc''"
  "sortKey (browse_recent_click lc st) = ''date'' \<and> sortDir (browse_recent_click lc st) = ''desc''"
  by (simp_all add: name_link_click_def source_card_click_def browse_recent_click_def Let_def
      sort_syncToUrl sort_update)


section \<open>The sort comparator\<close>


section \<open>The page window\<close>

lemma push_pages_eq: "push_pages i hi pages = pages @ map Page [i..hi]"
proof (induction i hi pages rule: push_pages.induct)
  case (1 i hi pages)
  show ?case
  proof (cases "i \<le> hi")
    case True
    then have "push_pages i hi pages = push_pages (i + 1) hi (pages @ [Page i])"
      by (simp add: push_pages.simps)
    also have "\<dots> = (pages @ [Page i]) @ map Page [i + 1..hi]"
      using 1 True by simp
    also have "\<dots> = pages @ map Page [i..hi]"
      using True by (simp add: upto_rec1)
    finally show ?thesis .
  next
    case False
    then show ?thesis by (simp add: push_pages.simps)
  qed
qed

lemma page_window_eq:
  assumes "2 \<le> t"
  shows "page_window t p = spec_window t p"
  using assms by (auto simp: page_window_def spec_window_def Let_def push_pages_eq)

lemma shown_pages:
  assumes "2 \<le> t" "1 \<le> p" "p \<le> t"
  shows "{k. Page k \<in> set (spec_window t p)} = {1, t} \<union> ({p - 1..p + 1} \<inter> {2..t - 1})"
  using assms by (auto simp: spec_window_def Let_def)

text \<open>
  Claim C7, amended. For every \<open>totalPages \<ge> 2\<close> and every current page in
  \<open>[1, totalPages]\<close> the rendered window is page 1, the last page, the range
  \<open>[p - 1, p + 1]\<close> cut to \<open>[2, totalPages - 1]\<close>, and one ellipsis on a side exactly when
  pages are hidden there; the pages shown are exactly those. For \<open>totalPages = 1\<close>
  nothing is rendered.
\<close>

theorem page_window_spec:
  assumes "2 \<le> t" and "1 \<le> p" and "p \<le> t"
  shows "pagination (renderPagination t (st\<lparr>page := p\<rparr>)) = spec_window t p
    \<and> {k. Page k \<in> set (pagination (renderPagination t (st\<lparr>page := p\<rparr>)))}
        = {1, t} \<union> ({p - 1..p + 1} \<inter> {2..t - 1})
    \<and> pagination (renderPagination 1 (st\<lparr>page := 1\<rparr>)) = []"
proof -
  have a: "pagination (renderPagination t (st\<lparr>page := p\<rparr>)) = spec_window t p"
    using assms(1) by (simp add: renderPagination_def page_window_eq)
  have b: "pagination (renderPagination 1 (st\<lparr>page := 1\<rparr>)) = []"
    by (simp add: renderPagination_def)
  show ?thesis unfolding a using shown_pages [OF assms] b by simp
qed

theorem page_window_spec_witness:
  "(2::int) \<le> 10 \<and> (1::int) \<le> 5 \<and> (5::int) \<le> 10
   \<and> pagination (renderPagination 10 (demo_state\<lparr>page := 5\<rparr>))
      = [Page 1, Ellipsis, Page 4, Page 5, Page 6, Ellipsis, Page 10]"
proof -
  have h: "(2::int) \<le> 10" "(1::int) \<le> 5" "(5::int) \<le> 10" by simp_all
  have e: "spec_window 10 5 = [Page 1, Ellipsis, Page 4, Page 5, Page 6, Ellipsis, Page 10]"
    by code_simp
  show ?thesis using page_window_spec [OF h, of demo_state, THEN conjunct1] e by simp
qed

text \<open>
  Claim C7 as stated includes \<open>totalPages = 1\<close>, where the window should hold page 1. The
  sample dataset has two entries and a page size of 25, hence one page, and
  \<^verbatim>\<open>renderPagination\<close> returns early: the control is empty.
\<close>

theorem single_page_renders_nothing:
  "total_pages (int (length (filtered (update code_unit_compare demo_state)))) 
       (perPage (update code_unit_compare demo_state)) = 1
   \<and> page (update code_unit_compare demo_state) = 1
   \<and> Page 1 \<notin> set (pagination (update code_unit_compare demo_state))
   \<and> pagination (renderPagination 1 (demo_state\<lparr>page := 1\<rparr>)) = []"
  by code_simp

section \<open>Expansion state\<close>

lemma applyFilters_exp:
  "applyFilters (st\<lparr>expandedIdx := e\<rparr>) = (applyFilters st)\<lparr>expandedIdx := e\<rparr>"
  by (simp add: applyFilters_def Let_def)

lemma render_exp: "render lc (st\<lparr>expandedIdx := e\<rparr>) = (render lc st)\<lparr>expandedIdx := e\<rparr>"
  by (simp add: render_def applySort_def renderPagination_def Let_def)

lemma update_exp: "update lc (st\<lparr>expandedIdx := e\<rparr>) = (update lc st)\<lparr>expandedIdx := e\<rparr>"
  by (simp add: update_def applyFilters_exp render_exp)

lemma url_params_exp: "url_params (st\<lparr>expandedIdx := e\<rparr>) = url_params st"
  by (simp add: url_params_def)

lemma syncToUrl_exp: "syncToUrl (st\<lparr>expandedIdx := e\<rparr>) = (syncToUrl st)\<lparr>expandedIdx := e\<rparr>"
  by (simp add: syncToUrl_def url_params_exp)

lemma read_param_exp:
  assumes "\<And>v s. f v (s\<lparr>expandedIdx := e\<rparr>) = (f v s)\<lparr>expandedIdx := e\<rparr>"
  shows "read_param k f ps (st\<lparr>expandedIdx := e\<rparr>) = (read_param k f ps st)\<lparr>expandedIdx := e\<rparr>"
  by (simp add: read_param_def assms)

lemma decode_exp: "decode ps (st\<lparr>expandedIdx := e\<rparr>) = (decode ps st)\<lparr>expandedIdx := e\<rparr>"
  unfolding decode_def
  by (simp add: read_param_exp read_sort_def read_year_def read_journals_def read_subfield_def Let_def)

lemma readFromUrl_exp:
  "readFromUrl (st\<lparr>expandedIdx := e\<rparr>) = (readFromUrl st)\<lparr>expandedIdx := e\<rparr>"
  by (simp add: readFromUrl_def Let_def decode_exp)

lemma clearFilters_exp: "clearFilters lc (st\<lparr>expandedIdx := e\<rparr>) = clearFilters lc st"
  by (simp add: clearFilters_def)

lemma location_hash_render: "location_hash (render lc st) = location_hash st"
  by (simp add: render_def applySort_def renderPagination_def Let_def)

lemma location_hash_update: "location_hash (update lc st) = location_hash st"
  by (simp add: update_def location_hash_render applyFilters_def Let_def)

lemma hash_sync_render:
  "a = b\<lparr>expandedIdx := e\<rparr> \<Longrightarrow>
   location_hash (syncToUrl (render lc a)) = location_hash (syncToUrl (render lc b))"
  by (simp add: render_exp syncToUrl_exp)

lemma hash_sync_update:
  "a = b\<lparr>expandedIdx := e\<rparr> \<Longrightarrow>
   location_hash (syncToUrl (update lc a)) = location_hash (syncToUrl (update lc b))"
  by (simp add: update_exp syncToUrl_exp)

lemma hash_refilter:
  "a = b\<lparr>expandedIdx := e\<rparr> \<Longrightarrow> location_hash (refilter lc a) = location_hash (refilter lc b)"
  unfolding refilter_def by (rule hash_sync_update [where e = e]) simp

lemma dispatch_hash_exp:
  "location_hash (dispatch lc ev (st\<lparr>expandedIdx := e\<rparr>)) = location_hash (dispatch lc ev st)"
proof (cases ev)
  case ClearClick
  then show ?thesis by (simp add: clear_click_def clearFilters_exp)
next
  case (PerPageChange n)
  show ?thesis unfolding PerPageChange dispatch.simps perPage_change_def
    by (rule hash_sync_render [where e = e]) simp
next
  case (ControlInput c v)
  show ?thesis unfolding ControlInput dispatch.simps control_input_def
    by (rule hash_refilter [where e = e]) (cases c; simp add: set_control_def)
next
  case SubfieldSelectAll
  show ?thesis unfolding SubfieldSelectAll dispatch.simps subfield_select_all_def
    by (rule hash_refilter [where e = e]) simp
next
  case SubfieldSelectNone
  show ?thesis unfolding SubfieldSelectNone dispatch.simps subfield_select_none_def
    by (rule hash_refilter [where e = e]) simp
next
  case (SubfieldCheckbox v checked)
  show ?thesis unfolding SubfieldCheckbox dispatch.simps subfield_checkbox_def
    by (rule hash_refilter [where e = e]) simp
next
  case JournalSelectAll
  show ?thesis unfolding JournalSelectAll dispatch.simps journal_select_all_def
    by (rule hash_refilter [where e = e]) simp
next
  case JournalSelectNone
  show ?thesis unfolding JournalSelectNone dispatch.simps journal_select_none_def
    by (rule hash_refilter [where e = e]) simp
next
  case (JournalCheckbox v checked)
  show ?thesis unfolding JournalCheckbox dispatch.simps journal_checkbox_def
    by (rule hash_refilter [where e = e]) simp
next
  case (SortClick key)
  show ?thesis unfolding SortClick dispatch.simps sort_click_def Let_def
    by (rule hash_sync_render [where e = e]) simp
next
  case (SourceCardClick j)
  then show ?thesis by (simp add: source_card_click_def clearFilters_exp)
next
  case BrowseRecentClick
  then show ?thesis by (simp add: browse_recent_click_def clearFilters_exp)
next
  case (Popstate h)
  have eq: "st\<lparr>expandedIdx := e\<rparr>\<lparr>location_hash := h\<rparr>
            = st\<lparr>location_hash := h\<rparr>\<lparr>expandedIdx := e\<rparr>"
    by simp
  show ?thesis
    unfolding Popstate dispatch.simps popstate_def location_hash_update eq readFromUrl_exp
    by simp
next
  case (RowClick idx)
  then show ?thesis by (simp add: row_click_def location_hash_render)
next
  case (NameLinkClick tp v)
  then show ?thesis by (simp add: name_link_click_def clearFilters_exp)
next
  case (PageClick np)
  have tp: "total_pages (int (length (filtered (st\<lparr>expandedIdx := e\<rparr>)))) (perPage (st\<lparr>expandedIdx := e\<rparr>))
        = total_pages (int (length (filtered st))) (perPage st)" by simp
  show ?thesis
  proof (cases "np \<ge> 1 \<and> np \<le> total_pages (int (length (filtered st))) (perPage st)")
    case True
    have "location_hash (syncToUrl (render lc (st\<lparr>expandedIdx := e\<rparr>\<lparr>page := np\<rparr>)))
          = location_hash (syncToUrl (render lc (st\<lparr>page := np\<rparr>)))"
      by (rule hash_sync_render [where e = e]) simp
    then show ?thesis unfolding PageClick dispatch.simps page_click_def Let_def tp
      using True by (simp only: if_True simp_thms)
  next
    case False
    then show ?thesis unfolding PageClick dispatch.simps page_click_def Let_def tp
      by (simp only: if_False simp_thms) simp
  qed
qed

lemma expandedIdx_update_None: "expandedIdx (update lc st) = expandedIdx st"
  by (simp add: update_def render_def applySort_def renderPagination_def applyFilters_def Let_def)

lemma expandedIdx_syncToUrl: "expandedIdx (syncToUrl st) = expandedIdx st"
  by (simp add: syncToUrl_def)

lemma expandedIdx_clearFilters: "expandedIdx (clearFilters lc st) = None"
  by (simp add: clearFilters_def expandedIdx_update_None)

text \<open>
  Claim C9. The expanded index is never written into the URL: the fragment
  \<^verbatim>\<open>syncToUrl\<close> writes does not depend on it, a click on a row leaves the fragment as it
  is, and for every event the fragment after the event is the same whatever the expanded
  index was before. The expanded index is reset to none by \<^verbatim>\<open>clearFilters\<close>, hence by
  the clear button, by a name link and by a source (journal) card.
\<close>

theorem expansion_transient:
  "location_hash (syncToUrl (st\<lparr>expandedIdx := e\<rparr>)) = location_hash (syncToUrl st)
   \<and> location_hash (row_click lc idx st) = location_hash st
   \<and> location_hash (dispatch lc ev (st\<lparr>expandedIdx := e\<rparr>)) = location_hash (dispatch lc ev st)
   \<and> expandedIdx (clearFilters lc st) = None
   \<and> expandedIdx (clear_click lc st) = None
   \<and> expandedIdx (name_link_click lc tp v st) = None
   \<and> expandedIdx (source_card_click lc j st) = None"
proof -
  have a: "location_hash (syncToUrl (st\<lparr>expandedIdx := e\<rparr>)) = location_hash (syncToUrl st)"
    by (simp add: syncToUrl_def url_params_exp)
  have b: "location_hash (row_click lc idx st) = location_hash st"
    by (simp add: row_click_def location_hash_render)
  have c: "expandedIdx (clear_click lc st) = None"
    by (simp add: clear_click_def expandedIdx_syncToUrl expandedIdx_clearFilters)
  have d: "expandedIdx (name_link_click lc tp v st) = None"
    by (simp add: name_link_click_def Let_def expandedIdx_syncToUrl expandedIdx_update_None
        expandedIdx_clearFilters)
  have f: "expandedIdx (source_card_click lc j st) = None"
    by (simp add: source_card_click_def Let_def expandedIdx_syncToUrl expandedIdx_update_None
        expandedIdx_clearFilters)
  show ?thesis using a b c d f dispatch_hash_exp expandedIdx_clearFilters by blast
qed

section \<open>Selecting every facet value\<close>

lemma filtered_refilter:
  "filtered (refilter lc st) =
     sort_by (comparator lc (sortKey st) (dir_of (sortDir st)))
       (filtered (applyFilters (st\<lparr>page := 1\<rparr>)))"
  by (simp add: refilter_def syncToUrl_def update_def filtered_render sort_applyFilters)

lemma same_refilter: "same_filter_inputs (refilter lc st) st"
  by (simp add: same_filter_inputs_def refilter_def syncToUrl_def update_def render_def
      applySort_def renderPagination_def applyFilters_def Let_def)

lemma selected_refilter:
  "selectedJournals (refilter lc st) = selectedJournals st"
  "selectedSubfields (refilter lc st) = selectedSubfields st"
  by (simp_all add: refilter_def syncToUrl_def update_def render_def
      applySort_def renderPagination_def applyFilters_def Let_def)

lemma keep_no_journal:
  "keep g ft fa fr fy1 fy2 fac ftype False fbs selJ selS
   = keep g ft fa fr fy1 fy2 fac ftype False fbs selJ' selS"
  by (rule ext) (simp add: keep_conj)

lemma keep_no_subfield:
  "keep g ft fa fr fy1 fy2 fac ftype fbj False selJ selS
   = keep g ft fa fr fy1 fy2 fac ftype fbj False selJ selS'"
  by (rule ext) (simp add: keep_conj)

lemma no_facet_same_results:
  assumes "same_filter_inputs a b"
    and "\<not> length (selectedJournals a) < length (allJournals a)"
    and "\<not> length (selectedJournals b) < length (allJournals b)"
    and "selectedSubfields a = selectedSubfields b"
  shows "filtered (applyFilters a) = filtered (applyFilters b)"
proof -
  have eq: "allJournals a = allJournals b" "allReviews a = allReviews b"
    "allSubfields a = allSubfields b"
    "globalSearch a = globalSearch b" "titleFilter a = titleFilter b"
    "authorFilter a = authorFilter b" "reviewerFilter a = reviewerFilter b"
    "yearFrom a = yearFrom b" "yearTo a = yearTo b"
    "accessFilter a = accessFilter b" "typeFilter a = typeFilter b"
    using assms(1) by (simp_all add: same_filter_inputs_def)
  have fa: "(length (selectedJournals a) < length (allJournals b)) = False"
    using assms(2) eq(1) by simp
  have fb: "(length (selectedJournals b) < length (allJournals b)) = False"
    using assms(3) by simp
  show ?thesis
    unfolding filtered_applyFilters eq assms(4) fa fb
    by (rule arg_cong [where f = "\<lambda>k. filter k (allReviews b)"]) (rule keep_no_journal)
qed

lemma no_subfacet_same_results:
  assumes "same_filter_inputs a b"
    and "\<not> length (selectedSubfields a) < length (allSubfields a)"
    and "\<not> length (selectedSubfields b) < length (allSubfields b)"
    and "selectedJournals a = selectedJournals b"
  shows "filtered (applyFilters a) = filtered (applyFilters b)"
proof -
  have eq: "allJournals a = allJournals b" "allReviews a = allReviews b"
    "allSubfields a = allSubfields b"
    "globalSearch a = globalSearch b" "titleFilter a = titleFilter b"
    "authorFilter a = authorFilter b" "reviewerFilter a = reviewerFilter b"
    "yearFrom a = yearFrom b" "yearTo a = yearTo b"
    "accessFilter a = accessFilter b" "typeFilter a = typeFilter b"
    using assms(1) by (simp_all add: same_filter_inputs_def)
  have fa: "(length (selectedSubfields a) < length (allSubfields b)) = False"
    using assms(2) eq(3) by simp
  have fb: "(length (selectedSubfields b) < length (allSubfields b)) = False"
    using assms(3) by simp
  show ?thesis
    unfolding filtered_applyFilters eq assms(4) fa fb
    by (rule arg_cong [where f = "\<lambda>k. filter k (allReviews b)"]) (rule keep_no_subfield)
qed

lemma superset_size:
  assumes "distinct all" and "set all \<subseteq> set sel"
  shows "\<not> length sel < length all"
proof -
  have "length all = card (set all)" using assms(1) by (simp add: distinct_card)
  also have "\<dots> \<le> card (set sel)" using assms(2) by (simp add: card_mono)
  also have "\<dots> \<le> length sel" by (rule card_length)
  finally show ?thesis by simp
qed

lemma new_Set_distinct: "distinct xs \<Longrightarrow> new_Set xs = xs"
proof (induction xs)
  case Nil
  then show ?case by simp
next
  case (Cons x xs)
  then have "filter (\<lambda>y. y \<noteq> x) xs = xs" by (auto simp: filter_id_conv)
  with Cons show ?case by simp
qed

lemma set_new_Set: "set (new_Set xs) = set xs"
  by (induction xs) auto

lemma distinct_new_Set: "distinct (new_Set xs)"
  by (induction xs) (auto simp: set_new_Set)

lemma set_set_add: "set (set_add v s) = insert v (set s)"
  by (auto simp: set_add_def)

lemma same_trans: "same_filter_inputs a b \<Longrightarrow> same_filter_inputs b c \<Longrightarrow> same_filter_inputs a c"
  by (simp add: same_filter_inputs_def)

lemma same_upd_journals: "same_filter_inputs (st\<lparr>selectedJournals := x\<rparr>) st"
  "same_filter_inputs (st\<lparr>selectedJournals := x, page := n\<rparr>) st"
  by (simp_all add: same_filter_inputs_def)

lemma same_upd_subfields: "same_filter_inputs (st\<lparr>selectedSubfields := x\<rparr>) st"
  "same_filter_inputs (st\<lparr>selectedSubfields := x, page := n\<rparr>) st"
  by (simp_all add: same_filter_inputs_def)

lemma journal_checkbox_props:
  "same_filter_inputs (journal_checkbox lc v True st) st"
  "selectedJournals (journal_checkbox lc v True st) = set_add v (selectedJournals st)"
  "selectedSubfields (journal_checkbox lc v True st) = selectedSubfields st"
  by (simp_all add: journal_checkbox_def selected_refilter
      same_trans [OF same_refilter same_upd_journals(1)])

lemma subfield_checkbox_props:
  "same_filter_inputs (subfield_checkbox lc v True st) st"
  "selectedSubfields (subfield_checkbox lc v True st) = set_add v (selectedSubfields st)"
  "selectedJournals (subfield_checkbox lc v True st) = selectedJournals st"
  by (simp_all add: subfield_checkbox_def selected_refilter
      same_trans [OF same_refilter same_upd_subfields(1)])

lemma fold_journal_checkbox:
  "same_filter_inputs (foldl (\<lambda>s v. journal_checkbox lc v True s) st vs) st
   \<and> set (selectedJournals (foldl (\<lambda>s v. journal_checkbox lc v True s) st vs))
       = set (selectedJournals st) \<union> set vs
   \<and> selectedSubfields (foldl (\<lambda>s v. journal_checkbox lc v True s) st vs)
       = selectedSubfields st"
proof (induction vs rule: rev_induct)
  case Nil
  then show ?case by (simp add: same_filter_inputs_def)
next
  case (snoc v vs)
  then show ?case
    by (auto simp: journal_checkbox_props(2,3) set_set_add
        intro: same_trans [OF journal_checkbox_props(1)])
qed

lemma fold_subfield_checkbox:
  "same_filter_inputs (foldl (\<lambda>s v. subfield_checkbox lc v True s) st vs) st
   \<and> set (selectedSubfields (foldl (\<lambda>s v. subfield_checkbox lc v True s) st vs))
       = set (selectedSubfields st) \<union> set vs
   \<and> selectedJournals (foldl (\<lambda>s v. subfield_checkbox lc v True s) st vs)
       = selectedJournals st"
proof (induction vs rule: rev_induct)
  case Nil
  then show ?case by (simp add: same_filter_inputs_def)
next
  case (snoc v vs)
  then show ?case
    by (auto simp: subfield_checkbox_props(2,3) set_set_add
        intro: same_trans [OF subfield_checkbox_props(1)])
qed

lemma full_selection_no_filter:
  assumes "distinct all" and "set sel = set all"
  shows "\<not> length sel < length all"
  using superset_size [OF assms(1)] assms(2) by simp

lemma same_sym: "same_filter_inputs a b \<Longrightarrow> same_filter_inputs b a"
  by (simp add: same_filter_inputs_def)

lemma journal_select_all_props:
  "same_filter_inputs (journal_select_all lc st) st"
  "selectedJournals (journal_select_all lc st) = new_Set (allJournals st)"
  "selectedSubfields (journal_select_all lc st) = selectedSubfields st"
  by (simp_all add: journal_select_all_def selected_refilter
      same_trans [OF same_refilter same_upd_journals(1)])

lemma subfield_select_all_props:
  "same_filter_inputs (subfield_select_all lc st) st"
  "selectedSubfields (subfield_select_all lc st) = new_Set (allSubfields st)"
  "selectedJournals (subfield_select_all lc st) = selectedJournals st"
  by (simp_all add: subfield_select_all_def selected_refilter
      same_trans [OF same_refilter same_upd_subfields(1)])

lemma same_dataset:
  assumes "same_filter_inputs a b"
  shows "allJournals a = allJournals b" "allSubfields a = allSubfields b"
    "sortKey a = sortKey b" "sortDir a = sortDir b"
  using assms by (simp_all add: same_filter_inputs_def)

text \<open>
  Claim C6. Ticking the checkbox of every journal, one by one and in any order \<open>js\<close>
  that covers the journals of the dataset, gives the same filter as the select-all
  button: \<^verbatim>\<open>applyFilters\<close> computes the same list in both states, the results shown are
  the same (when at least one checkbox was ticked, so that the handler ran), and in both
  states the journal facet passes every entry \<open>r\<close>, as it does in any state whose
  selected set is the full set. The same holds for the subfields. The lists of all
  journals and of all subfields hold distinct values.
\<close>

theorem select_each_is_select_all:
  assumes "distinct (allJournals st)" and "set (allJournals st) \<subseteq> set js"
    and "distinct (allSubfields st)" and "set (allSubfields st) \<subseteq> set sfs"
  shows "filtered (applyFilters (foldl (\<lambda>s v. journal_checkbox lc v True s) st js))
           = filtered (applyFilters (journal_select_all lc st))
    \<and> (js \<noteq> [] \<longrightarrow> filtered (foldl (\<lambda>s v. journal_checkbox lc v True s) st js)
           = filtered (journal_select_all lc st))
    \<and> journal_facet_passes (foldl (\<lambda>s v. journal_checkbox lc v True s) st js) r
    \<and> journal_facet_passes (journal_select_all lc st) r
    \<and> filtered (applyFilters (foldl (\<lambda>s v. subfield_checkbox lc v True s) st sfs))
           = filtered (applyFilters (subfield_select_all lc st))
    \<and> (sfs \<noteq> [] \<longrightarrow> filtered (foldl (\<lambda>s v. subfield_checkbox lc v True s) st sfs)
           = filtered (subfield_select_all lc st))
    \<and> subfield_facet_passes (foldl (\<lambda>s v. subfield_checkbox lc v True s) st sfs) r
    \<and> subfield_facet_passes (subfield_select_all lc st) r
    \<and> (distinct (selectedJournals st) \<and> set (selectedJournals st) = set (allJournals st)
         \<longrightarrow> journal_facet_passes st r)
    \<and> (distinct (selectedSubfields st) \<and> set (selectedSubfields st) = set (allSubfields st)
         \<longrightarrow> subfield_facet_passes st r)"
proof -
  let ?hj = "\<lambda>s v. journal_checkbox lc v True s"
  let ?hs = "\<lambda>s v. subfield_checkbox lc v True s"
  let ?J = "foldl ?hj st js" and ?A = "journal_select_all lc st"
  let ?S = "foldl ?hs st sfs" and ?B = "subfield_select_all lc st"
  \<comment> \<open>journals\<close>
  have J: "same_filter_inputs ?J st" "selectedSubfields ?J = selectedSubfields st"
    "set (selectedJournals ?J) = set (selectedJournals st) \<union> set js"
    using fold_journal_checkbox [of lc st js] by simp_all
  have JA: "same_filter_inputs ?J ?A"
    by (rule same_trans [OF J(1) same_sym [OF journal_select_all_props(1)]])
  have "set (allJournals st) \<subseteq> set (selectedJournals ?J)" using assms(2) J(3) by auto
  then have nJ: "\<not> length (selectedJournals ?J) < length (allJournals ?J)"
    using superset_size [OF assms(1)] same_dataset(1) [OF J(1)] by simp
  have nA: "\<not> length (selectedJournals ?A) < length (allJournals ?A)"
    using assms(1) same_dataset(1) [OF journal_select_all_props(1), of lc st]
    by (simp add: journal_select_all_props(2) new_Set_distinct)
  have c1: "filtered (applyFilters ?J) = filtered (applyFilters ?A)"
    using JA nJ nA by (rule no_facet_same_results) (simp add: J(2) journal_select_all_props(3))
  have c2: "js \<noteq> [] \<longrightarrow> filtered ?J = filtered ?A"
  proof
    assume "js \<noteq> []"
    then obtain js' j where js: "js = js' @ [j]" by (cases js rule: rev_cases) auto
    let ?p = "foldl ?hj st js'"
    let ?a = "?p\<lparr>selectedJournals := set_add j (selectedJournals ?p), page := 1\<rparr>"
    let ?b = "st\<lparr>selectedJournals := new_Set (allJournals st), page := 1\<rparr>"
    have p: "same_filter_inputs ?p st" "selectedSubfields ?p = selectedSubfields st"
      "set (selectedJournals ?p) = set (selectedJournals st) \<union> set js'"
      using fold_journal_checkbox [of lc st js'] by simp_all
    have sab: "same_filter_inputs ?a ?b"
      using p(1) by (simp add: same_filter_inputs_def)
    have "set (allJournals st) \<subseteq> set (selectedJournals ?a)"
      using assms(2) p(3) by (auto simp: js set_set_add)
    then have na: "\<not> length (selectedJournals ?a) < length (allJournals ?a)"
      using superset_size [OF assms(1)] p(1) by (simp add: same_filter_inputs_def)
    have nb: "\<not> length (selectedJournals ?b) < length (allJournals ?b)"
      using assms(1) by (simp add: new_Set_distinct)
    have fab: "filtered (applyFilters ?a) = filtered (applyFilters ?b)"
      using sab na nb p(2) by (intro no_facet_same_results) simp_all
    show "filtered ?J = filtered ?A"
      using fab same_dataset(3,4) [OF p(1)]
      by (simp add: js journal_checkbox_def journal_select_all_def filtered_refilter)
  qed
  have c3: "journal_facet_passes ?J r" "journal_facet_passes ?A r"
    using nJ nA by (simp_all add: journal_facet_passes_def)
  \<comment> \<open>subfields\<close>
  have S: "same_filter_inputs ?S st" "selectedJournals ?S = selectedJournals st"
    "set (selectedSubfields ?S) = set (selectedSubfields st) \<union> set sfs"
    using fold_subfield_checkbox [of lc st sfs] by simp_all
  have SB: "same_filter_inputs ?S ?B"
    by (rule same_trans [OF S(1) same_sym [OF subfield_select_all_props(1)]])
  have "set (allSubfields st) \<subseteq> set (selectedSubfields ?S)" using assms(4) S(3) by auto
  then have nS: "\<not> length (selectedSubfields ?S) < length (allSubfields ?S)"
    using superset_size [OF assms(3)] same_dataset(2) [OF S(1)] by simp
  have nB: "\<not> length (selectedSubfields ?B) < length (allSubfields ?B)"
    using assms(3) same_dataset(2) [OF subfield_select_all_props(1), of lc st]
    by (simp add: subfield_select_all_props(2) new_Set_distinct)
  have c4: "filtered (applyFilters ?S) = filtered (applyFilters ?B)"
    using SB nS nB
    by (rule no_subfacet_same_results) (simp add: S(2) subfield_select_all_props(3))
  have c5: "sfs \<noteq> [] \<longrightarrow> filtered ?S = filtered ?B"
  proof
    assume "sfs \<noteq> []"
    then obtain sfs' f where sfs: "sfs = sfs' @ [f]" by (cases sfs rule: rev_cases) auto
    let ?q = "foldl ?hs st sfs'"
    let ?c = "?q\<lparr>selectedSubfields := set_add f (selectedSubfields ?q), page := 1\<rparr>"
    let ?d = "st\<lparr>selectedSubfields := new_Set (allSubfields st), page := 1\<rparr>"
    have q: "same_filter_inputs ?q st" "selectedJournals ?q = selectedJournals st"
      "set (selectedSubfields ?q) = set (selectedSubfields st) \<union> set sfs'"
      using fold_subfield_checkbox [of lc st sfs'] by simp_all
    have scd: "same_filter_inputs ?c ?d"
      using q(1) by (simp add: same_filter_inputs_def)
    have "set (allSubfields st) \<subseteq> set (selectedSubfields ?c)"
      using assms(4) q(3) by (auto simp: sfs set_set_add)
    then have nc: "\<not> length (selectedSubfields ?c) < length (allSubfields ?c)"
      using superset_size [OF assms(3)] q(1) by (simp add: same_filter_inputs_def)
    have nd: "\<not> length (selectedSubfields ?d) < length (allSubfields ?d)"
      using assms(3) by (simp add: new_Set_distinct)
    have fcd: "filtered (applyFilters ?c) = filtered (applyFilters ?d)"
      using scd nc nd q(2) by (intro no_subfacet_same_results) simp_all
    show "filtered ?S = filtered ?B"
      using fcd same_dataset(3,4) [OF q(1)]
      by (simp add: sfs subfield_checkbox_def subfield_select_all_def filtered_refilter)
  qed
  have c6: "subfield_facet_passes ?S r" "subfield_facet_passes ?B r"
    using nS nB by (simp_all add: subfield_facet_passes_def)
  have c7: "distinct (selectedJournals st) \<and> set (selectedJournals st) = set (allJournals st)
         \<longrightarrow> journal_facet_passes st r"
    using full_selection_no_filter [OF assms(1), of "selectedJournals st"]
    by (simp add: journal_facet_passes_def)
  have c8: "distinct (selectedSubfields st) \<and> set (selectedSubfields st) = set (allSubfields st)
         \<longrightarrow> subfield_facet_passes st r"
    using full_selection_no_filter [OF assms(3), of "selectedSubfields st"]
    by (simp add: subfield_facet_passes_def)
  show ?thesis by (intro conjI) (rule c1 c2 c3 c4 c5 c6 c7 c8)+
qed

theorem select_each_is_select_all_witness:
  "distinct (allJournals (demo_state\<lparr>selectedJournals := [], selectedSubfields := []\<rparr>))
   \<and> set (allJournals (demo_state\<lparr>selectedJournals := [], selectedSubfields := []\<rparr>))
       \<subseteq> set [''Politics, Philosophy & Economics'', ''Mind'']
   \<and> distinct (allSubfields (demo_state\<lparr>selectedJournals := [], selectedSubfields := []\<rparr>))
   \<and> set (allSubfields (demo_state\<lparr>selectedJournals := [], selectedSubfields := []\<rparr>))
       \<subseteq> set [''legal'', ''ethics'']
   \<and> filtered (foldl (\<lambda>s v. journal_checkbox code_unit_compare v True s)
         (demo_state\<lparr>selectedJournals := [], selectedSubfields := []\<rparr>)
         [''Politics, Philosophy & Economics'', ''Mind''])
      = filtered (journal_select_all code_unit_compare
         (demo_state\<lparr>selectedJournals := [], selectedSubfields := []\<rparr>))
   \<and> filtered (foldl (\<lambda>s v. subfield_checkbox code_unit_compare v True s)
         (demo_state\<lparr>selectedJournals := [], selectedSubfields := []\<rparr>)
         [''legal'', ''ethics''])
      = filtered (subfield_select_all code_unit_compare
         (demo_state\<lparr>selectedJournals := [], selectedSubfields := []\<rparr>))"
proof -
  let ?st = "demo_state\<lparr>selectedJournals := [], selectedSubfields := []\<rparr>"
  have h1: "distinct (allJournals ?st)" by code_simp
  have h2: "set (allJournals ?st) \<subseteq> set [''Politics, Philosophy & Economics'', ''Mind'']"
    by code_simp
  have h3: "[''Politics, Philosophy & Economics'', ''Mind''] \<noteq> []" by simp
  have h4: "distinct (allSubfields ?st)" by code_simp
  have h5: "set (allSubfields ?st) \<subseteq> set [''legal'', ''ethics'']" by code_simp
  have h6: "[''legal'', ''ethics''] \<noteq> []" by simp
  show ?thesis
    using h1 h2 h3 h4 h5 h6 select_each_is_select_all [OF h1 h2 h4 h5, of code_unit_compare]
    by blast
qed

section \<open>Decoding the fragment\<close>







lemma decode_Nil: "decode [] st = st"
  by (simp add: decode_def read_param_def params_has_def)

lemma readFromUrl_decode: "readFromUrl st = decode (location_hash st) st"
  by (simp add: readFromUrl_def Let_def decode_Nil)

lemma read_param_frame:
  assumes "\<And>v s. X (f v s) = X s"
  shows "X (read_param k f ps st) = X st"
  by (simp add: read_param_def assms)

lemma read_param_hit:
  "X (read_param k f ps st) =
     (if params_has ps k then X (f (params_get ps k) st) else X st)"
  by (simp add: read_param_def)

lemmas rp_frames =
  read_param_frame [where X = allReviews]
  read_param_frame [where X = filtered]
  read_param_frame [where X = allJournals]
  read_param_frame [where X = selectedJournals]
  read_param_frame [where X = allSubfields]
  read_param_frame [where X = selectedSubfields]
  read_param_frame [where X = page]
  read_param_frame [where X = perPage]
  read_param_frame [where X = sortKey]
  read_param_frame [where X = sortDir]
  read_param_frame [where X = expandedIdx]
  read_param_frame [where X = globalSearch]
  read_param_frame [where X = titleFilter]
  read_param_frame [where X = authorFilter]
  read_param_frame [where X = reviewerFilter]
  read_param_frame [where X = yearFrom]
  read_param_frame [where X = yearTo]
  read_param_frame [where X = accessFilter]
  read_param_frame [where X = typeFilter]
  read_param_frame [where X = pagination]
  read_param_frame [where X = location_hash]

lemmas step_defs = read_sort_def read_year_def read_journals_def read_subfield_def Let_def






lemma decode_selectedSubfields:
  "selectedSubfields (decode ps st) =
     (if params_has ps ''subfield''
      then new_Set (filter (\<lambda>c. c \<in> set (allSubfields st))
                      (js_split CHR '','' (params_get ps ''subfield'')))
      else selectedSubfields st)"
  unfolding decode_def
  by (simp add: rp_frames step_defs)
     (simp add: read_param_hit [where X = selectedSubfields] rp_frames step_defs)

lemma decode_selectedJournals:
  "selectedJournals (decode ps st) =
     (if params_has ps ''journals''
      then new_Set (filter (\<lambda>n. n \<in> set (allJournals st))
                      (js_split CHR '','' (params_get ps ''journals'')))
      else selectedJournals st)"
  unfolding decode_def
  by (simp add: rp_frames step_defs)
     (simp add: read_param_hit [where X = selectedJournals] rp_frames step_defs)



lemma decode_page:
  "page (decode ps st) =
     (if params_has ps ''page'' then page_or_1 (params_get ps ''page'') else page st)"
  unfolding decode_def
  by (simp add: read_param_hit [where X = page] rp_frames step_defs)



lemma set_new_Set_filter: "set (new_Set (filter P xs)) = set xs \<inter> {x. P x}"
  by (auto simp: set_new_Set)





section \<open>Invariants of the handlers\<close>

text \<open>
  The selected sets never hold duplicates, from start-up on, and the page stays at least 1
  under every event that does not read the fragment.
\<close>

lemma selected_applyFilters:
  "selectedJournals (applyFilters st) = selectedJournals st"
  "selectedSubfields (applyFilters st) = selectedSubfields st"
  "page (applyFilters st) = page st"
  by (simp_all add: applyFilters_def Let_def)

lemma selected_render:
  "selectedJournals (render lc st) = selectedJournals st"
  "selectedSubfields (render lc st) = selectedSubfields st"
  by (simp_all add: render_def applySort_def renderPagination_def Let_def)

lemma selected_update:
  "selectedJournals (update lc st) = selectedJournals st"
  "selectedSubfields (update lc st) = selectedSubfields st"
  by (simp_all add: update_def selected_render selected_applyFilters)

lemma selected_syncToUrl:
  "selectedJournals (syncToUrl st) = selectedJournals st"
  "selectedSubfields (syncToUrl st) = selectedSubfields st"
  "page (syncToUrl st) = page st"
  by (simp_all add: syncToUrl_def)

lemma selected_clearFilters:
  "selectedJournals (clearFilters lc st) = new_Set (allJournals st)"
  "selectedSubfields (clearFilters lc st) = new_Set (allSubfields st)"
  by (simp_all add: clearFilters_def selected_update)

lemma distinct_set_add: "distinct s \<Longrightarrow> distinct (set_add v s)"
  by (simp add: set_add_def)

lemma distinct_set_delete: "distinct s \<Longrightarrow> distinct (set_delete v s)"
  by (simp add: set_delete_def)

lemma selected_set_control:
  "selectedJournals (set_control c v st) = selectedJournals st"
  "selectedSubfields (set_control c v st) = selectedSubfields st"
  by (cases c; simp add: set_control_def)+

lemma distinct_selected_dispatch:
  assumes "distinct (selectedJournals st)" and "distinct (selectedSubfields st)"
  shows "distinct (selectedJournals (dispatch lc ev st))
       \<and> distinct (selectedSubfields (dispatch lc ev st))"
proof (cases ev)
  case (Popstate h)
  then show ?thesis using assms
    by (simp add: popstate_def selected_update readFromUrl_decode decode_selectedJournals
        decode_selectedSubfields distinct_new_Set)
next
  case (PageClick np)
  then show ?thesis using assms
    by (simp add: page_click_def Let_def selected_syncToUrl selected_render)
qed (use assms in \<open>simp_all add: clear_click_def perPage_change_def control_input_def
      subfield_select_all_def subfield_select_none_def subfield_checkbox_def
      journal_select_all_def journal_select_none_def journal_checkbox_def sort_click_def
      source_card_click_def browse_recent_click_def row_click_def name_link_click_def
      refilter_def Let_def selected_syncToUrl selected_update selected_render
      selected_clearFilters selected_set_control distinct_new_Set distinct_set_add
      distinct_set_delete\<close>)

lemma distinct_selected_init:
  "distinct (selectedJournals (init lc rs sfs h))
   \<and> distinct (selectedSubfields (init lc rs sfs h))"
  by (simp add: init_def selected_update readFromUrl_decode decode_selectedJournals
      decode_selectedSubfields distinct_new_Set fresh_def)

lemma update_page_ge: "1 \<le> page st \<Longrightarrow> 1 \<le> page (update lc st)"
  by (simp add: update_def render_page_ge selected_applyFilters)

lemma page_clearFilters: "1 \<le> page (clearFilters lc st)"
  by (simp add: clearFilters_def update_page_ge)

lemma dispatch_page_ge:
  assumes "1 \<le> page st" and "\<And>h. ev \<noteq> Popstate h"
  shows "1 \<le> page (dispatch lc ev st)"
proof (cases ev)
  case (Popstate h)
  then show ?thesis using assms(2) by simp
next
  case (PageClick np)
  then show ?thesis using assms(1)
    by (simp add: page_click_def Let_def selected_syncToUrl render_page_ge)
qed (use assms(1) in \<open>simp_all add: clear_click_def perPage_change_def control_input_def
      subfield_select_all_def subfield_select_none_def subfield_checkbox_def
      journal_select_all_def journal_select_none_def journal_checkbox_def sort_click_def
      source_card_click_def browse_recent_click_def row_click_def name_link_click_def
      refilter_def Let_def selected_syncToUrl update_page_ge render_page_ge
      page_clearFilters\<close>)

lemma popstate_page_not_raised:
  assumes "params_has ps ''page''" and "page_or_1 (params_get ps ''page'') \<le> 1"
  shows "page (popstate lc ps st) = page_or_1 (params_get ps ''page'')"
proof -
  let ?s = "applyFilters (readFromUrl (st\<lparr>location_hash := ps\<rparr>))"
  have p: "page ?s = page_or_1 (params_get ps ''page'')"
    using assms(1) by (simp add: selected_applyFilters readFromUrl_decode decode_page)
  have "1 \<le> total_pages (int (length (filtered ?s))) (perPage ?s)"
    by (rule total_pages_ge_1)
  then have "\<not> page ?s > total_pages (int (length (filtered ?s))) (perPage ?s)"
    using assms(2) p by simp
  then show ?thesis using p by (simp add: popstate_def update_def page_render)
qed

section \<open>The page number after a render\<close>

text \<open>
  Claim C2. After every render the number of pages is \<open>max(1, ceil(c / s))\<close> for the
  filtered count \<open>c\<close> and the page size \<open>s\<close>, and the page lies in \<open>[1, totalPages]\<close>,
  also for states restored from a fragment. The first part and the upper bound hold
  (\<open>total_pages_ceiling\<close>, \<open>render_page_le\<close>), and a page that is at least 1 stays so
  under every event but a navigation to another fragment (\<open>dispatch_page_ge\<close>). The
  lower bound fails for a fragment with a negative page: \<^verbatim>\<open>parseInt("-3", 10) || 1\<close>
  is \<open>-3\<close>, and \<^verbatim>\<open>render\<close> only clamps downwards (\<open>popstate_page_not_raised\<close>).
  Opening the page with the fragment \<^verbatim>\<open>#page=-3\<close>, or navigating back to it, leaves
  the page at \<open>-3\<close> while there is one page.
\<close>

theorem negative_page_from_url:
  "page (init code_unit_compare [hobbes_entry, ethics_entry] [''ethics'', ''legal'']
           [(''page'', ''-3'')]) = - 3
   \<and> total_pages (int (length (filtered (init code_unit_compare [hobbes_entry, ethics_entry]
           [''ethics'', ''legal''] [(''page'', ''-3'')])))) 25 = 1
   \<and> page (popstate code_unit_compare [(''page'', ''-3'')] demo_state) = - 3"
  by code_simp

section \<open>The URL round trip\<close>
































text \<open>
  Equivalent states give the same filtered list on the same dataset, when their selected
  sets hold no duplicates.
\<close>

lemma is_space_lower_char: "is_space (lower_char c) = is_space c"
  by (auto simp: lower_char_def is_space_def split: option.splits if_splits)

lemma trim_toLowerCase: "trim (toLowerCase s) = toLowerCase (trim s)"
proof -
  have c: "is_space \<circ> lower_char = is_space"
    by (rule ext) (simp add: is_space_lower_char)
  show ?thesis
    by (simp add: trim_def toLowerCase_def dropWhile_map rev_map c)
qed

lemma keep_set_cong:
  assumes "set selJ = set selJ'" and "set selS = set selS'"
  shows "keep g ft fa fr fy1 fy2 fac ftype fbj fbs selJ selS
       = keep g ft fa fr fy1 fy2 fac ftype fbj fbs selJ' selS'"
proof (rule ext)
  fix r
  have j: "set_has selJ x = set_has selJ' x" for x
    by (cases x) (simp_all add: set_has_def assms(1))
  have s: "set_has selS x = set_has selS' x" for x
    by (cases x) (simp_all add: set_has_def assms(2))
  show "keep g ft fa fr fy1 fy2 fac ftype fbj fbs selJ selS r
       = keep g ft fa fr fy1 fy2 fac ftype fbj fbs selJ' selS' r"
    unfolding keep_conj j s by (rule refl)
qed

lemma same_set_same_length:
  assumes "distinct xs" and "distinct ys" and "set xs = set ys"
  shows "length xs = length ys"
  using assms by (metis distinct_card)

lemma view_equiv_same_results:
  assumes "view_equiv a b"
    and "allReviews a = allReviews b" and "allJournals a = allJournals b"
    and "allSubfields a = allSubfields b"
    and "distinct (selectedJournals a)" and "distinct (selectedJournals b)"
    and "distinct (selectedSubfields a)" and "distinct (selectedSubfields b)"
  shows "filtered (applyFilters a) = filtered (applyFilters b)"
proof -
  have e: "trim (globalSearch a) = trim (globalSearch b)"
    "trim (titleFilter a) = trim (titleFilter b)"
    "trim (authorFilter a) = trim (authorFilter b)"
    "trim (reviewerFilter a) = trim (reviewerFilter b)"
    "yearFrom a = yearFrom b" "yearTo a = yearTo b"
    "accessFilter a = accessFilter b" "typeFilter a = typeFilter b"
    and sj: "set (selectedJournals a) = set (selectedJournals b)"
    and ss: "set (selectedSubfields a) = set (selectedSubfields b)"
    using assms(1) by (simp_all add: view_equiv_def)
  have lj: "length (selectedJournals a) = length (selectedJournals b)"
    using assms(5,6) sj by (rule same_set_same_length)
  have ls: "length (selectedSubfields a) = length (selectedSubfields b)"
    using assms(7,8) ss by (rule same_set_same_length)
  show ?thesis
    unfolding filtered_applyFilters trim_toLowerCase e assms(2,3,4) lj ls
    by (rule arg_cong [where f = "\<lambda>k. filter k (allReviews b)"]) (rule keep_set_cong [OF sj ss])
qed




text \<open>
  The other conditions are needed as well: a selected name with a comma is split at it and
  dropped, a dash inside a year or a sort key shifts the tokens, and a page below 1 is not
  written.
\<close>

lemma comma_in_journal_name_not_restored:
  "location_hash (syncToUrl (demo_state\<lparr>selectedJournals := [''Politics, Philosophy & Economics'']\<rparr>))
     = [(''journals'', ''Politics, Philosophy & Economics'')]
   \<and> selectedJournals (reload (demo_state\<lparr>selectedJournals := [''Politics, Philosophy & Economics'']\<rparr>)) = []
   \<and> selectedJournals (readFromUrl (syncToUrl
        (demo_state\<lparr>selectedJournals := [''Politics, Philosophy & Economics'']\<rparr>))) = []"
  by code_simp

lemma dash_in_year_not_restored:
  "yearFrom (reload (demo_state\<lparr>yearFrom := ''-300''\<rparr>)) = []
   \<and> yearTo (reload (demo_state\<lparr>yearFrom := ''-300''\<rparr>)) = ''300''"
  by code_simp

lemma dash_in_sort_key_not_restored:
  "sortKey (reload (demo_state\<lparr>sortKey := ''a-b'', sortDir := ''asc''\<rparr>)) = ''date''"
  by code_simp

lemma page_below_1_not_restored: "page (reload (demo_state\<lparr>page := - 3\<rparr>)) = 1"
  by code_simp

section \<open>Entries without a subfield\<close>

text \<open>
  Claim C10. An entry with neither \<open>subfield\<close> nor \<open>subfield2\<close> is excluded from the
  results whenever the selected subfields are a strict subset of all subfields, even one
  that misses a single value. The selected subfields are a JavaScript set, hence without
  duplicates. The entry is absent from the list \<^verbatim>\<open>applyFilters\<close> computes and from the
  sorted list \<^verbatim>\<open>update\<close> leaves.
\<close>

theorem no_subfield_excluded:
  assumes "subfield r = None" and "subfield2 r = None"
    and "distinct (selectedSubfields st)"
    and "set (selectedSubfields st) \<subset> set (allSubfields st)"
  shows "r \<notin> set (filtered (applyFilters st)) \<and> r \<notin> set (filtered (update lc st))"
proof -
  have "length (selectedSubfields st) < length (allSubfields st)"
    using assms(3,4) by (rule strict_subset_size)
  then have "r \<notin> set (filtered (applyFilters st))"
    using assms(1,2) by (simp add: filtered_applyFilters keep_conj set_has_def)
  then show ?thesis by (simp only: filtered_update_set simp_thms)
qed

theorem no_subfield_excluded_witness:
  "hobbes_entry \<in> set (allReviews (demo_state\<lparr>selectedSubfields := [''ethics'']\<rparr>))
   \<and> subfield hobbes_entry = None \<and> subfield2 hobbes_entry = None
   \<and> distinct (selectedSubfields (demo_state\<lparr>selectedSubfields := [''ethics'']\<rparr>))
   \<and> set (selectedSubfields (demo_state\<lparr>selectedSubfields := [''ethics'']\<rparr>))
       \<subset> set (allSubfields (demo_state\<lparr>selectedSubfields := [''ethics'']\<rparr>))
   \<and> hobbes_entry \<notin> set (filtered (applyFilters (demo_state\<lparr>selectedSubfields := [''ethics'']\<rparr>)))
   \<and> hobbes_entry \<notin> set (filtered (update code_unit_compare
                                     (demo_state\<lparr>selectedSubfields := [''ethics'']\<rparr>)))"
proof -
  have h0: "hobbes_entry \<in> set (allReviews (demo_state\<lparr>selectedSubfields := [''ethics'']\<rparr>))"
    by code_simp
  have h1: "subfield hobbes_entry = None" and h2: "subfield2 hobbes_entry = None"
    by code_simp+
  have h3: "distinct (selectedSubfields (demo_state\<lparr>selectedSubfields := [''ethics'']\<rparr>))"
    by code_simp
  have h4: "set (selectedSubfields (demo_state\<lparr>selectedSubfields := [''ethics'']\<rparr>))
       \<subset> set (allSubfields (demo_state\<lparr>selectedSubfields := [''ethics'']\<rparr>))"
    by code_simp
  show ?thesis
    using h0 h1 h2 h3 h4 no_subfield_excluded [OF h1 h2 h3 h4, of code_unit_compare]
    by blast
qed

end
